theory Spec2Isabelle
  imports Complex_Main
begin

section \<open>Data model of the Drawing class (src/main.js)\<close>

text \<open>
  JavaScript numbers are modelled as reals: the properties below are about which
  commands the context receives and which stored coordinates they carry, not about
  rounding. Where the source adds, subtracts or divides (\<open>dxy\<close>, \<open>circle\<close>, a centred
  \<open>rect\<close>, \<open>ellipse\<close>) the model computes exactly, so a coordinate that a property
  states as such a sum is the one of the source up to the rounding of the double
  operation. An optional parameter is an \<open>option\<close>, with \<open>None\<close> for an omitted
  argument, which is \<open>undefined\<close> in the body: it fails the \<open>!= null\<close> tests and takes
  the default of a default parameter. A literal \<open>null\<close> argument is not modelled.
\<close>

type_synonym num = real

text \<open>A position object \<open>{x, y}\<close>; every store of one in the source is a copy.\<close>

type_synonym position = "num \<times> num"

text \<open>The free-form object \<open>textStyle\<close>: each key is absent until it is assigned.\<close>

record text_style =
  font :: "string option"
  textAlign :: "string option"
  textBaseline :: "string option"

text \<open>A stroke or fill style: a colour string, or a gradient or pattern object.\<close>

datatype paint = Color string | PaintObj nat

text \<open>
  Everything the class does to the rendering context \<open>this._\<close>: one constructor for each
  method it calls and for each property it assigns.
\<close>

datatype cmd =
    BeginPath
  | MoveTo num num
  | LineTo num num
  | QuadraticCurveTo num num num num
  | BezierCurveTo num num num num num num
  | ArcToCmd num num num num num
  | ClosePath
  | RectCmd num num num num
  | ArcCmd num num num num num "bool option"
  | EllipseCmd num num num num num num num "bool option"
  | StrokeCmd
  | FillCmd "string option"
  | Assign text_style
  | StrokeText string num num
  | FillText string num num
  | ClearRect num num num num
  | DrawImage3 nat num num
  | DrawImage5 nat num num num num
  | SetLineWidth num
  | SetStrokeStyle paint
  | SetFillStyle paint
  | SetLineDash "num list"
  | SetLineDashOffset num
  | SetLineCap string
  | SetLineJoin string
  | SetShadowOffsetX num
  | SetShadowOffsetY num
  | SetShadowBlur num
  | SetShadowColor string
  | SaveCmd
  | RestoreCmd
  | RotateCmd num
  | ScaleCmd num num
  | TranslateCmd num num

text \<open>
  The closure stored in \<open>drawCurve\<close>, as the values it captures; \<open>runCurve\<close> is its
  body, applied to the end point.
\<close>

datatype pending_curve =
    ArcToPending num num num
  | QuadraticPending num num
  | BezierPending num num num num

fun runCurve :: "pending_curve \<Rightarrow> num \<Rightarrow> num \<Rightarrow> cmd" where
  "runCurve (ArcToPending cx cy r) ex ey = ArcToCmd cx cy ex ey r"
| "runCurve (QuadraticPending x1 y1) ex ey = QuadraticCurveTo x1 y1 ex ey"
| "runCurve (BezierPending x1 y1 x2 y2) ex ey = BezierCurveTo x1 y1 x2 y2 ex ey"

text \<open>
  The object: \<open>ctx\<close> is the log of what the context \<open>this._\<close> has received, oldest
  first, and \<open>canvas\<close> the width and height of \<open>this._.canvas\<close>.
\<close>

record drawing =
  ctx :: "cmd list"
  canvas :: "num \<times> num"
  pos :: position
  posDrawn :: bool
  posStart :: "position option"
  pendingText :: "(string \<times> position \<times> text_style) list"
  textStyle :: text_style
  pendingPathClose :: bool
  drawCurve :: "pending_curve option"

definition constructor :: "num \<times> num \<Rightarrow> drawing" where
  "constructor cv =
     \<lparr> ctx = [], canvas = cv, pos = (0, 0), posDrawn = True, posStart = None,
       pendingText = [],
       textStyle = \<lparr> font = None, textAlign = None, textBaseline = None \<rparr>,
       pendingPathClose = False, drawCurve = None \<rparr>"

text \<open>A call of a context method, or an assignment to a context property.\<close>

definition emit :: "cmd \<Rightarrow> drawing \<Rightarrow> drawing" where
  "emit c s = s\<lparr> ctx := ctx s @ [c] \<rparr>"

section \<open>Internal path management\<close>

definition advancePath :: "num option \<Rightarrow> num option \<Rightarrow> drawing \<Rightarrow> drawing" where
  "advancePath a b s =
     (let s1 = (if \<not> posDrawn s then
                  (if posStart s = None
                   then emit (MoveTo (fst (pos s)) (snd (pos s))) (s\<lparr> posStart := Some (pos s) \<rparr>)
                   else emit (LineTo (fst (pos s)) (snd (pos s))) s)
                else s)
      in (case a of
            Some xa \<Rightarrow> (case b of
                          Some ya \<Rightarrow> s1\<lparr> pos := (xa, ya), posDrawn := False \<rparr>
                        | None \<Rightarrow> s1\<lparr> posDrawn := True \<rparr>)
          | None \<Rightarrow> s1\<lparr> posDrawn := True \<rparr>))"

definition checkPathClose :: "drawing \<Rightarrow> drawing" where
  "checkPathClose s =
     (if pendingPathClose s
      then (emit BeginPath (s\<lparr> pendingPathClose := False, pendingText := [] \<rparr>))\<lparr> posStart := None \<rparr>
      else s)"

section \<open>Points, paths and shapes\<close>

text \<open>
  \<open>xy\<close> is the branch of the method for a numeric (or omitted) first argument, \<open>xy_fun\<close>
  the branch for a function argument, which runs \<open>xyf\<close> over the pairs the generator
  yields (a finite list here).
\<close>

definition xy :: "num option \<Rightarrow> num option \<Rightarrow> drawing \<Rightarrow> drawing" where
  "xy a b s =
     (let s1 = advancePath a b (checkPathClose s)
      in (case drawCurve s1 of
            Some c \<Rightarrow> (emit (runCurve c (fst (pos s1)) (snd (pos s1))) s1)\<lparr> drawCurve := None \<rparr>
          | None \<Rightarrow> s1))"

fun xyf :: "(num option \<times> num option) list \<Rightarrow> drawing \<Rightarrow> drawing" where
  "xyf [] s = s"
| "xyf ((a, b) # ps) s = xyf ps (advancePath a b s)"

definition xy_fun :: "(num option \<times> num option) list \<Rightarrow> drawing \<Rightarrow> drawing" where
  "xy_fun ps s = xyf ps (checkPathClose s)"

definition x_m :: "num \<Rightarrow> drawing \<Rightarrow> drawing" where
  "x_m a s = xy (Some a) (Some (snd (pos s))) s"

definition y_m :: "num \<Rightarrow> drawing \<Rightarrow> drawing" where
  "y_m b s = xy (Some (fst (pos s))) (Some b) s"

definition dxy :: "num \<Rightarrow> num \<Rightarrow> drawing \<Rightarrow> drawing" where
  "dxy a b s = xy (Some (fst (pos s) + a)) (Some (snd (pos s) + b)) s"

definition dx :: "num \<Rightarrow> drawing \<Rightarrow> drawing" where
  "dx a s = dxy a 0 s"

definition dy :: "num \<Rightarrow> drawing \<Rightarrow> drawing" where
  "dy b s = dxy 0 b s"

definition close :: "drawing \<Rightarrow> drawing" where
  "close s =
     (let s1 = advancePath None None (checkPathClose s);
          s2 = (case posStart s1 of
                  Some st \<Rightarrow>
                    (advancePath None None (xy (Some (fst st)) (Some (snd st)) s1))\<lparr> posStart := None \<rparr>
                | None \<Rightarrow> s1)
      in emit ClosePath s2)"

definition rect :: "num \<Rightarrow> num \<Rightarrow> bool \<Rightarrow> drawing \<Rightarrow> drawing" where
  "rect width height centered s =
     (let s1 = checkPathClose s;
          px = fst (pos s1);
          py = snd (pos s1)
      in (emit (RectCmd (if centered then px - width / 2 else px)
                        (if centered then py - height / 2 else py)
                        width height) s1)\<lparr> posDrawn := True \<rparr>)"

definition square :: "num \<Rightarrow> bool \<Rightarrow> drawing \<Rightarrow> drawing" where
  "square sz centered s = rect sz sz centered s"

definition arc :: "num \<Rightarrow> num \<Rightarrow> num \<Rightarrow> bool option \<Rightarrow> drawing \<Rightarrow> drawing" where
  "arc radius startAngle endAngle anticlockwise s =
     (let s1 = checkPathClose s
      in (emit (ArcCmd (fst (pos s1)) (snd (pos s1)) radius startAngle endAngle anticlockwise) s1)
           \<lparr> posDrawn := True \<rparr>)"

text \<open>\<open>2 * Math.PI\<close>: the double nearest to \<open>\<pi>\<close> is \<open>884279719003555 / 2 ^ 48\<close>.\<close>

definition Tau :: num where
  "Tau = 884279719003555 / 140737488355328"

definition circle :: "num \<Rightarrow> drawing \<Rightarrow> drawing" where
  "circle radius s =
     (arc radius 0 Tau (Some False) (emit (MoveTo (fst (pos s) + radius) (snd (pos s))) s))
       \<lparr> posStart := None \<rparr>"

text \<open>\<open>Math.cos\<close> and \<open>Math.sin\<close>, as the real functions.\<close>

definition Math_cos :: "num \<Rightarrow> num" where
  "Math_cos r = cos r"

definition Math_sin :: "num \<Rightarrow> num" where
  "Math_sin r = sin r"

definition ellipse ::
  "num \<Rightarrow> num \<Rightarrow> num option \<Rightarrow> num option \<Rightarrow> num option \<Rightarrow> bool option \<Rightarrow> drawing \<Rightarrow> drawing" where
  "ellipse radiusX radiusY rotation0 startAngle0 endAngle0 anticlockwise s =
     (let rotation = (case rotation0 of Some r \<Rightarrow> r | None \<Rightarrow> 0);
          startAngle = (case startAngle0 of Some a \<Rightarrow> a | None \<Rightarrow> 0);
          endAngle = (case endAngle0 of Some a \<Rightarrow> a | None \<Rightarrow> Tau);
          s1 = checkPathClose s;
          px = fst (pos s1);
          py = snd (pos s1);
          s2 = (if startAngle = 0 \<and> endAngle = Tau
                then emit (MoveTo (px + radiusX * Math_cos rotation) (py + radiusX * Math_sin rotation)) s1
                else s1)
      in (emit (EllipseCmd px py radiusX radiusY rotation startAngle endAngle anticlockwise) s2)
           \<lparr> posDrawn := True \<rparr>)"

definition arcTo :: "num \<Rightarrow> num \<Rightarrow> num \<Rightarrow> drawing \<Rightarrow> drawing" where
  "arcTo cx cy radius s = s\<lparr> drawCurve := Some (ArcToPending cx cy radius) \<rparr>"

definition curve :: "num \<Rightarrow> num \<Rightarrow> num option \<Rightarrow> num option \<Rightarrow> drawing \<Rightarrow> drawing" where
  "curve x1 y1 x2 y2 s =
     s\<lparr> drawCurve :=
          Some (case x2 of
                  Some x2' \<Rightarrow> (case y2 of
                                 Some y2' \<Rightarrow> BezierPending x1 y1 x2' y2'
                               | None \<Rightarrow> QuadraticPending x1 y1)
                | None \<Rightarrow> QuadraticPending x1 y1) \<rparr>"

section \<open>Path manipulation\<close>

definition split :: "drawing \<Rightarrow> drawing" where
  "split s = (advancePath None None (checkPathClose s))\<lparr> posStart := None \<rparr>"

definition join :: "drawing \<Rightarrow> drawing" where
  "join s =
     (let s1 = advancePath None None (checkPathClose s)
      in xy (Some (fst (pos s1))) (Some (snd (pos s1))) s1)"

section \<open>Drawing\<close>

text \<open>JavaScript truthiness of the values that the source tests.\<close>

fun truthy_paint :: "paint \<Rightarrow> bool" where
  "truthy_paint (Color c) = (c \<noteq> [])"
| "truthy_paint (PaintObj n) = True"

datatype stroke_size = SizeNum num | SizePaint paint | SizeNone

definition strokeTexts :: "(string \<times> position \<times> text_style) list \<Rightarrow> cmd list" where
  "strokeTexts ts = concat (map (\<lambda>(str, p, style). [Assign style, StrokeText str (fst p) (snd p)]) ts)"

definition fillTexts :: "(string \<times> position \<times> text_style) list \<Rightarrow> cmd list" where
  "fillTexts ts = concat (map (\<lambda>(str, p, style). [Assign style, FillText str (fst p) (snd p)]) ts)"

definition emits :: "cmd list \<Rightarrow> drawing \<Rightarrow> drawing" where
  "emits cs s = s\<lparr> ctx := ctx s @ cs \<rparr>"

definition stroke :: "stroke_size \<Rightarrow> paint option \<Rightarrow> drawing \<Rightarrow> drawing" where
  "stroke sz color s =
     (let s1 = (case sz of
                  SizeNum n \<Rightarrow>
                    (let t = emit (SetLineWidth n) s
                     in (case color of
                           Some c \<Rightarrow> if truthy_paint c then emit (SetStrokeStyle c) t else t
                         | None \<Rightarrow> t))
                | SizePaint p \<Rightarrow> if truthy_paint p then emit (SetStrokeStyle p) s else s
                | SizeNone \<Rightarrow> s);
          s2 = advancePath None None s1;
          s3 = emits (strokeTexts (pendingText s2)) s2;
          s4 = emit StrokeCmd s3
      in s4\<lparr> pendingPathClose := True \<rparr>)"

definition fill :: "paint option \<Rightarrow> string option \<Rightarrow> drawing \<Rightarrow> drawing" where
  "fill color fillrule s =
     (let s1 = (case color of
                  Some c \<Rightarrow> if truthy_paint c then emit (SetFillStyle c) s else s
                | None \<Rightarrow> s);
          s2 = advancePath None None s1;
          s3 = emits (fillTexts (pendingText s2)) s2;
          s4 = emit (FillCmd fillrule) s3
      in s4\<lparr> pendingPathClose := True \<rparr>)"

definition clear :: "num option \<Rightarrow> num option \<Rightarrow> num option \<Rightarrow> num option \<Rightarrow> drawing \<Rightarrow> drawing" where
  "clear width0 height0 x0 y0 s =
     (let width = (case width0 of Some w \<Rightarrow> w | None \<Rightarrow> fst (canvas s));
          height = (case height0 of Some h \<Rightarrow> h | None \<Rightarrow> snd (canvas s));
          cx = (case x0 of Some v \<Rightarrow> v | None \<Rightarrow> 0);
          cy = (case y0 of Some v \<Rightarrow> v | None \<Rightarrow> 0)
      in emit (ClearRect cx cy width height) (checkPathClose s))"

definition image_m :: "nat \<Rightarrow> num option \<Rightarrow> num option \<Rightarrow> drawing \<Rightarrow> drawing" where
  "image_m src width height s =
     (let s1 = checkPathClose s;
          px = fst (pos s1);
          py = snd (pos s1);
          c = (case width of
                 Some w \<Rightarrow>
                   (case height of
                      Some h \<Rightarrow> if w \<noteq> 0 \<and> h \<noteq> 0 then DrawImage5 src px py w h
                                else DrawImage3 src px py
                    | None \<Rightarrow> DrawImage3 src px py)
               | None \<Rightarrow> DrawImage3 src px py)
      in (emit c s1)\<lparr> posDrawn := True \<rparr>)"

section \<open>Style, colour and text\<close>

datatype dash_arg = DashNum num | DashList "num list" | DashNone

definition dash :: "dash_arg \<Rightarrow> num option \<Rightarrow> drawing \<Rightarrow> drawing" where
  "dash lineDash offset0 s =
     (let offset = (case offset0 of Some v \<Rightarrow> v | None \<Rightarrow> 0);
          segs = (case lineDash of DashNum n \<Rightarrow> [n] | DashList l \<Rightarrow> l | DashNone \<Rightarrow> [5])
      in emit (SetLineDashOffset offset) (emit (SetLineDash segs) s))"

definition lineStyle :: "string \<Rightarrow> string \<Rightarrow> drawing \<Rightarrow> drawing" where
  "lineStyle cap jn s = emit (SetLineJoin jn) (emit (SetLineCap cap) s)"

definition shadow :: "num \<Rightarrow> num \<Rightarrow> num \<Rightarrow> string \<Rightarrow> drawing \<Rightarrow> drawing" where
  "shadow ox oy blur color s =
     emit (SetShadowColor color) (emit (SetShadowBlur blur)
       (emit (SetShadowOffsetY oy) (emit (SetShadowOffsetX ox) s)))"

text \<open>\<open>v || d\<close> for an optional string \<open>v\<close>: the empty string is falsy.\<close>

definition or_default :: "string option \<Rightarrow> string \<Rightarrow> string" where
  "or_default v d = (case v of Some t \<Rightarrow> if t = [] then d else t | None \<Rightarrow> d)"

definition text_m :: "string \<Rightarrow> string option \<Rightarrow> string option \<Rightarrow> drawing \<Rightarrow> drawing" where
  "text_m str alignment baseline s =
     (let s1 = checkPathClose s;
          style = (textStyle s1)\<lparr> textAlign := Some (or_default alignment ''start''),
                                  textBaseline := Some (or_default baseline ''alphabetic'') \<rparr>
      in s1\<lparr> textStyle := style,
              pendingText := pendingText s1 @ [(str, pos s1, style)],
              posDrawn := True \<rparr>)"

definition font_m :: "string \<Rightarrow> drawing \<Rightarrow> drawing" where
  "font_m f s = s\<lparr> textStyle := (textStyle s)\<lparr> font := Some f \<rparr> \<rparr>"

section \<open>Context transformation\<close>

definition save :: "drawing \<Rightarrow> drawing" where
  "save s = emit SaveCmd s"

definition restore :: "drawing \<Rightarrow> drawing" where
  "restore s = emit RestoreCmd s"

definition rotate_m :: "num \<Rightarrow> drawing \<Rightarrow> drawing" where
  "rotate_m angle s = emit (RotateCmd angle) s"

definition scale :: "num \<Rightarrow> num \<Rightarrow> drawing \<Rightarrow> drawing" where
  "scale a b s = emit (ScaleCmd a b) s"

definition translate :: "num \<Rightarrow> num \<Rightarrow> drawing \<Rightarrow> drawing" where
  "translate a b s = emit (TranslateCmd a b) s"

section \<open>Sequences of public calls\<close>

datatype call =
    Call_xy "num option" "num option"
  | Call_xy_fun "(num option \<times> num option) list"
  | Call_x num
  | Call_y num
  | Call_dxy num num
  | Call_dx num
  | Call_dy num
  | Call_close
  | Call_rect num num bool
  | Call_square num bool
  | Call_arc num num num "bool option"
  | Call_circle num
  | Call_ellipse num num "num option" "num option" "num option" "bool option"
  | Call_arcTo num num num
  | Call_curve num num "num option" "num option"
  | Call_split
  | Call_join
  | Call_stroke stroke_size "paint option"
  | Call_fill "paint option" "string option"
  | Call_clear "num option" "num option" "num option" "num option"
  | Call_image nat "num option" "num option"
  | Call_dash dash_arg "num option"
  | Call_lineStyle string string
  | Call_shadow num num num string
  | Call_text string "string option" "string option"
  | Call_font string
  | Call_save
  | Call_restore
  | Call_rotate num
  | Call_scale num num
  | Call_translate num num

fun exec :: "call \<Rightarrow> drawing \<Rightarrow> drawing" where
  "exec (Call_xy a b) s = xy a b s"
| "exec (Call_xy_fun ps) s = xy_fun ps s"
| "exec (Call_x a) s = x_m a s"
| "exec (Call_y b) s = y_m b s"
| "exec (Call_dxy a b) s = dxy a b s"
| "exec (Call_dx a) s = dx a s"
| "exec (Call_dy b) s = dy b s"
| "exec Call_close s = close s"
| "exec (Call_rect w h c) s = rect w h c s"
| "exec (Call_square n c) s = square n c s"
| "exec (Call_arc r a b ac) s = arc r a b ac s"
| "exec (Call_circle r) s = circle r s"
| "exec (Call_ellipse rx ry rot a b ac) s = ellipse rx ry rot a b ac s"
| "exec (Call_arcTo a b r) s = arcTo a b r s"
| "exec (Call_curve a b c d) s = curve a b c d s"
| "exec Call_split s = split s"
| "exec Call_join s = join s"
| "exec (Call_stroke sz c) s = stroke sz c s"
| "exec (Call_fill c r) s = fill c r s"
| "exec (Call_clear w h a b) s = clear w h a b s"
| "exec (Call_image src w h) s = image_m src w h s"
| "exec (Call_dash d off) s = dash d off s"
| "exec (Call_lineStyle c j) s = lineStyle c j s"
| "exec (Call_shadow a b bl c) s = shadow a b bl c s"
| "exec (Call_text str al bl) s = text_m str al bl s"
| "exec (Call_font f) s = font_m f s"
| "exec Call_save s = save s"
| "exec Call_restore s = restore s"
| "exec (Call_rotate a) s = rotate_m a s"
| "exec (Call_scale a b) s = scale a b s"
| "exec (Call_translate a b) s = translate a b s"

text \<open>A chain of calls \<open>d.c1(...).c2(...)\<close>, leftmost first.\<close>

fun run :: "call list \<Rightarrow> drawing \<Rightarrow> drawing" where
  "run [] s = s"
| "run (c # cs) s = run cs (exec c s)"

section \<open>Vocabulary of the properties\<close>

text \<open>The commands that the context receives between a state and a later one.\<close>

definition issued :: "drawing \<Rightarrow> drawing \<Rightarrow> cmd list" where
  "issued s s' = drop (length (ctx s)) (ctx s')"

text \<open>What a flush (\<open>advancePath\<close> with no arguments) of the stored position issues.\<close>

definition flush_cmds :: "drawing \<Rightarrow> cmd list" where
  "flush_cmds s =
     (if posDrawn s then []
      else if posStart s = None then [MoveTo (fst (pos s)) (snd (pos s))]
      else [LineTo (fst (pos s)) (snd (pos s))])"

text \<open>The property assignments that \<open>stroke\<close> and \<open>fill\<close> make from their arguments.\<close>

fun stroke_style_cmds :: "stroke_size \<Rightarrow> paint option \<Rightarrow> cmd list" where
  "stroke_style_cmds (SizeNum n) (Some c) =
     (if truthy_paint c then [SetLineWidth n, SetStrokeStyle c] else [SetLineWidth n])"
| "stroke_style_cmds (SizeNum n) None = [SetLineWidth n]"
| "stroke_style_cmds (SizePaint p) c = (if truthy_paint p then [SetStrokeStyle p] else [])"
| "stroke_style_cmds SizeNone c = []"

fun fill_style_cmds :: "paint option \<Rightarrow> cmd list" where
  "fill_style_cmds (Some c) = (if truthy_paint c then [SetFillStyle c] else [])"
| "fill_style_cmds None = []"

text \<open>The texts that a run of commands draws, with their anchors, in order.\<close>

definition texts_drawn :: "cmd list \<Rightarrow> (string \<times> num \<times> num) list" where
  "texts_drawn cs =
     concat (map (\<lambda>c. case c of
                          StrokeText str a b \<Rightarrow> [(str, a, b)]
                        | FillText str a b \<Rightarrow> [(str, a, b)]
                        | _ \<Rightarrow> []) cs)"

text \<open>The paint calls, and a chain of point-adding calls \<open>xy(a, b)\<close>.\<close>

fun is_paint :: "call \<Rightarrow> bool" where
  "is_paint (Call_stroke sz c) = True"
| "is_paint (Call_fill c r) = True"
| "is_paint other = False"

definition points :: "position list \<Rightarrow> call list" where
  "points ps = map (\<lambda>p. Call_xy (Some (fst p)) (Some (snd p))) ps"

text \<open>
  The point that a point-adding call with a single point gives to \<open>xy\<close> in a state:
  \<open>xy\<close> with two numbers, \<open>x\<close>, \<open>y\<close>, \<open>dxy\<close>, \<open>dx\<close> and \<open>dy\<close>, with the sums as the
  source writes them.
\<close>

fun point_of :: "call \<Rightarrow> drawing \<Rightarrow> position option" where
  "point_of (Call_xy (Some a) (Some b)) s = Some (a, b)"
| "point_of (Call_x a) s = Some (a, snd (pos s))"
| "point_of (Call_y b) s = Some (fst (pos s), b)"
| "point_of (Call_dxy a b) s = Some (fst (pos s) + a, snd (pos s) + b)"
| "point_of (Call_dx a) s = Some (fst (pos s) + a, snd (pos s) + 0)"
| "point_of (Call_dy b) s = Some (fst (pos s) + 0, snd (pos s) + b)"
| "point_of other s = None"

text \<open>The pairs of a generator that yields the points \<open>ps\<close>.\<close>

definition yields :: "position list \<Rightarrow> (num option \<times> num option) list" where
  "yields ps = map (\<lambda>p. (Some (fst p), Some (snd p))) ps"

text \<open>
  The calls that touch neither the path nor the stored position: they run neither
  \<open>_checkPathClose\<close> nor \<open>_advancePath\<close>, and none of them paints.
\<close>

fun off_path :: "call \<Rightarrow> bool" where
  "off_path (Call_arcTo a b r) = True"
| "off_path (Call_curve a b c d) = True"
| "off_path (Call_dash d off) = True"
| "off_path (Call_lineStyle c j) = True"
| "off_path (Call_shadow a b bl c) = True"
| "off_path (Call_font f) = True"
| "off_path Call_save = True"
| "off_path Call_restore = True"
| "off_path (Call_rotate a) = True"
| "off_path (Call_scale a b) = True"
| "off_path (Call_translate a b) = True"
| "off_path other = False"

text \<open>
  The point primitive as the specification words it: the stored position is pushed
  first when it is not committed, as a move that also records the subpath start when
  no subpath is open and as a line otherwise; then a point given by both coordinates
  is stored uncommitted, and otherwise the stored one is marked committed.
\<close>

definition setPoint_spec :: "num option \<Rightarrow> num option \<Rightarrow> drawing \<Rightarrow> drawing" where
  "setPoint_spec a b s =
     (let pushed = (if posDrawn s then []
                    else if posStart s = None then [MoveTo (fst (pos s)) (snd (pos s))]
                    else [LineTo (fst (pos s)) (snd (pos s))]);
          start = (if posDrawn s then posStart s
                   else if posStart s = None then Some (pos s)
                   else posStart s);
          given = (a \<noteq> None \<and> b \<noteq> None)
      in s\<lparr> ctx := ctx s @ pushed,
             posStart := start,
             pos := (if given then (the a, the b) else pos s),
             posDrawn := \<not> given \<rparr>)"

section \<open>Evaluation\<close>

text \<open>
  The cosine and sine of a real are computed at 0 only, which is the default rotation
  of \<open>ellipse\<close>; every other definition above computes as it stands.
\<close>

lemma Math_cos_code [code]:
  "Math_cos r = (if r = 0 then 1 else Code.abort (STR ''Math.cos'') (\<lambda>_. Math_cos r))"
  by (simp add: Math_cos_def)

lemma Math_sin_code [code]:
  "Math_sin r = (if r = 0 then 0 else Code.abort (STR ''Math.sin'') (\<lambda>_. Math_sin r))"
  by (simp add: Math_sin_def)

section \<open>Properties\<close>

subsection \<open>Effects of the internal operations\<close>

lemma flush_cmds_ctx: "flush_cmds (s\<lparr> ctx := cs \<rparr>) = flush_cmds s"
  by (simp add: flush_cmds_def)

lemma advancePath_ctx: "ctx (advancePath a b s) = ctx s @ flush_cmds s"
  by (simp add: advancePath_def flush_cmds_def emit_def Let_def split: option.splits)

lemma advancePath_frame:
  "pendingText (advancePath a b s) = pendingText s"
  "pendingPathClose (advancePath a b s) = pendingPathClose s"
  "drawCurve (advancePath a b s) = drawCurve s"
  "textStyle (advancePath a b s) = textStyle s"
  "canvas (advancePath a b s) = canvas s"
  by (simp_all add: advancePath_def emit_def Let_def split: option.splits)

lemma advancePath_posStart:
  "posStart (advancePath a b s) =
     (if posDrawn s then posStart s
      else if posStart s = None then Some (pos s) else posStart s)"
  by (simp add: advancePath_def emit_def Let_def split: option.splits)

lemma advancePath_flush_only:
  "pos (advancePath None None s) = pos s"
  "posDrawn (advancePath None None s) = True"
  by (simp_all add: advancePath_def emit_def Let_def)

lemma checkPathClose_effect:
  "ctx (checkPathClose s) = ctx s @ (if pendingPathClose s then [BeginPath] else [])"
  "pendingPathClose (checkPathClose s) = False"
  "pendingText (checkPathClose s) = (if pendingPathClose s then [] else pendingText s)"
  "posStart (checkPathClose s) = (if pendingPathClose s then None else posStart s)"
  "pos (checkPathClose s) = pos s"
  "posDrawn (checkPathClose s) = posDrawn s"
  "drawCurve (checkPathClose s) = drawCurve s"
  "textStyle (checkPathClose s) = textStyle s"
  "canvas (checkPathClose s) = canvas s"
  by (simp_all add: checkPathClose_def emit_def)

lemma checkPathClose_idle: "\<not> pendingPathClose s \<Longrightarrow> checkPathClose s = s"
  by (simp add: checkPathClose_def)

lemma advancePath_pos:
  "pos (advancePath a b s) =
     (case a of Some xa \<Rightarrow> (case b of Some ya \<Rightarrow> (xa, ya) | None \<Rightarrow> pos s) | None \<Rightarrow> pos s)"
  by (simp add: advancePath_def emit_def Let_def split: option.splits)

lemma advancePath_posDrawn:
  "posDrawn (advancePath a b s) = (a = None \<or> b = None)"
  by (simp add: advancePath_def emit_def Let_def split: option.splits)

lemma xy_fields:
  "pos (xy a b s) = pos (advancePath a b s)"
  "posDrawn (xy a b s) = (a = None \<or> b = None)"
  "posStart (xy a b s) = posStart (advancePath a b (checkPathClose s))"
  "drawCurve (xy a b s) = None"
  "pendingPathClose (xy a b s) = False"
  "pendingText (xy a b s) = (if pendingPathClose s then [] else pendingText s)"
  "textStyle (xy a b s) = textStyle s"
  "canvas (xy a b s) = canvas s"
  by (simp_all add: xy_def Let_def emit_def advancePath_frame advancePath_pos advancePath_posDrawn
      checkPathClose_effect split: option.splits)

lemma xy_ctx:
  "ctx (xy a b s) =
     ctx s @ (if pendingPathClose s then [BeginPath] else []) @ flush_cmds (checkPathClose s)
           @ (case drawCurve s of
                None \<Rightarrow> []
              | Some c \<Rightarrow> [runCurve c (fst (pos (xy a b s))) (snd (pos (xy a b s)))])"
  by (simp add: xy_def Let_def emit_def advancePath_ctx advancePath_frame advancePath_pos
      checkPathClose_effect split: option.splits)

lemma runCurve_not_path_start: "runCurve c ex ey \<noteq> BeginPath"
  by (cases c) simp_all

subsection \<open>The point primitive\<close>

text \<open>
  Claim C3. \<open>_advancePath\<close> is the point primitive of the specification: when the
  stored position is not committed it is pushed to the context first, as a move that also
  sets \<open>posStart\<close> when \<open>posStart\<close> is null and as a line otherwise; then, when both
  arguments are given, \<open>pos\<close> becomes the new point and \<open>posDrawn\<close> false, and when
  either is omitted \<open>posDrawn\<close> becomes true and \<open>pos\<close> stays. Nothing else of the
  object changes.
\<close>

theorem advancePath_is_setPoint: "advancePath a b s = setPoint_spec a b s"
  by (cases a; cases b) (simp_all add: advancePath_def setPoint_spec_def emit_def Let_def)

text \<open>After \<open>xy(1, 2)\<close> on a new object: (1, 2) is moved to, and (3, 4) is stored.\<close>

theorem advancePath_is_setPoint_witness:
  "advancePath (Some 3) (Some 4) (xy (Some 1) (Some 2) (constructor (300, 150))) =
     (constructor (300, 150))\<lparr> ctx := [MoveTo 1 2], posStart := Some (1, 2), pos := (3, 4),
                                posDrawn := False \<rparr>"
  using advancePath_is_setPoint [of "Some 3" "Some 4" "xy (Some 1) (Some 2) (constructor (300, 150))"]
  by (simp add: setPoint_spec_def constructor_def Let_def xy_def checkPathClose_def
      advancePath_def emit_def)

subsection \<open>The path reset at the start of a call\<close>

text \<open>
  Claim C1 says that a path-mutating call made while \<open>pendingPathClose\<close> is set issues
  \<open>beginPath\<close> before anything else, \<open>circle\<close> included. \<open>circle\<close> calls \<open>moveTo\<close>
  before \<open>arc\<close> runs \<open>_checkPathClose\<close>: right after a \<open>stroke()\<close> on a new object,
  \<open>circle(5)\<close> issues the move first and \<open>beginPath\<close> second. The other calls of the
  claim do issue \<open>beginPath\<close> first (\<open>reset_is_first\<close> below).
\<close>

theorem circle_moves_before_beginPath:
  "pendingPathClose (stroke SizeNone None (constructor (300, 150))) \<and>
   issued (stroke SizeNone None (constructor (300, 150)))
          (circle 5 (stroke SizeNone None (constructor (300, 150)))) =
     [MoveTo 5 0, BeginPath, ArcCmd 0 0 5 0 Tau (Some False)]"
  by (simp add: issued_def circle_def arc_def stroke_def emits_def strokeTexts_def constructor_def
      checkPathClose_def advancePath_def emit_def Let_def)

subsection \<open>A deferred curve and its destination\<close>

text \<open>
  Claim C2 says that \<open>curve(x1, y1)\<close> followed by \<open>xy(x2, y2)\<close> issues one quadratic
  curve and no line for that transition, up to the completion of the destination's effect
  on the path. After \<open>xy(0, 0)\<close>, \<open>xy(5, 5)\<close> the two calls issue a line (to the stored
  (5, 5)) before the curve, and the next flush, here by \<open>stroke()\<close>, issues a line to the
  destination (2, 2) itself.
\<close>

theorem curve_xy_lines_counterexample:
  "drawCurve (run (points [(0, 0), (5, 5)]) (constructor (300, 150))) = None \<and>
   issued (run (points [(0, 0), (5, 5)]) (constructor (300, 150)))
          (run (points [(0, 0), (5, 5)] @ [Call_curve 1 1 None None, Call_xy (Some 2) (Some 2)])
               (constructor (300, 150)))
     = [LineTo 5 5, QuadraticCurveTo 1 1 2 2] \<and>
   issued (run (points [(0, 0), (5, 5)] @ [Call_curve 1 1 None None, Call_xy (Some 2) (Some 2)])
               (constructor (300, 150)))
          (run (points [(0, 0), (5, 5)] @ [Call_curve 1 1 None None, Call_xy (Some 2) (Some 2),
                 Call_stroke SizeNone None])
               (constructor (300, 150)))
     = [LineTo 2 2, StrokeCmd]"
  by (simp add: issued_def points_def curve_def stroke_def emits_def strokeTexts_def constructor_def
      xy_def checkPathClose_def advancePath_def emit_def Let_def)

text \<open>
  Claim C2, amended. In every state, \<open>curve(x1, y1)\<close> followed by \<open>xy(x2, y2)\<close> issues
  exactly one quadratic curve, with control point (x1, y1) and destination (x2, y2), as
  the last command of the \<open>xy\<close> call. Before it the call issues only \<open>beginPath\<close> when
  \<open>pendingPathClose\<close> is set and the flush of the stored position when that is not
  committed (a move or a line to the old position). The destination is left uncommitted
  and \<open>drawCurve\<close> is cleared.
\<close>

theorem curve_then_xy_commands:
  "issued s (xy (Some x2) (Some y2) (curve x1 y1 None None s)) =
     (if pendingPathClose s then [BeginPath] else [])
     @ (if posDrawn s then []
        else if pendingPathClose s \<or> posStart s = None
             then [MoveTo (fst (pos s)) (snd (pos s))]
             else [LineTo (fst (pos s)) (snd (pos s))])
     @ [QuadraticCurveTo x1 y1 x2 y2]
   \<and> pos (xy (Some x2) (Some y2) (curve x1 y1 None None s)) = (x2, y2)
   \<and> posDrawn (xy (Some x2) (Some y2) (curve x1 y1 None None s)) = False
   \<and> drawCurve (xy (Some x2) (Some y2) (curve x1 y1 None None s)) = None"
  by (simp add: issued_def xy_def checkPathClose_def advancePath_def emit_def Let_def curve_def)

text \<open>With (7, 8) stored and uncommitted: a move to it, then the curve.\<close>

theorem curve_then_xy_commands_witness:
  "issued (xy (Some 7) (Some 8) (constructor (300, 150)))
          (xy (Some 2) (Some 2) (curve 1 1 None None (xy (Some 7) (Some 8) (constructor (300, 150)))))
     = [MoveTo 7 8, QuadraticCurveTo 1 1 2 2]"
  using curve_then_xy_commands [of "xy (Some 7) (Some 8) (constructor (300, 150))" 2 2 1 1]
  by (simp add: xy_def checkPathClose_def advancePath_def emit_def Let_def constructor_def)

subsection \<open>Effects of the public calls on the path\<close>

lemmas path_defs = xy_def checkPathClose_def advancePath_def emit_def emits_def Let_def

lemma stroke_ctx:
  "ctx (stroke sz col s) =
     ctx s @ stroke_style_cmds sz col @ flush_cmds s @ strokeTexts (pendingText s) @ [StrokeCmd]"
  by (cases sz; cases col)
     (simp_all add: stroke_def emits_def emit_def Let_def advancePath_ctx advancePath_frame flush_cmds_ctx)

lemma fill_ctx:
  "ctx (fill col rule s) =
     ctx s @ fill_style_cmds col @ flush_cmds s @ fillTexts (pendingText s) @ [FillCmd rule]"
  by (cases col)
     (simp_all add: fill_def emits_def emit_def Let_def advancePath_ctx advancePath_frame flush_cmds_ctx)

lemma stroke_fields:
  "pendingPathClose (stroke sz col s) = True"
  "pendingText (stroke sz col s) = pendingText s"
  "drawCurve (stroke sz col s) = drawCurve s"
  "posDrawn (stroke sz col s) = True"
  "pos (stroke sz col s) = pos s"
  "textStyle (stroke sz col s) = textStyle s"
  by (cases sz; cases col;
      simp add: stroke_def emits_def emit_def Let_def advancePath_frame advancePath_flush_only
        advancePath_pos advancePath_posDrawn)+

lemma fill_fields:
  "pendingPathClose (fill col rule s) = True"
  "pendingText (fill col rule s) = pendingText s"
  "drawCurve (fill col rule s) = drawCurve s"
  "posDrawn (fill col rule s) = True"
  "pos (fill col rule s) = pos s"
  "textStyle (fill col rule s) = textStyle s"
  by (cases col;
      simp add: fill_def emits_def emit_def Let_def advancePath_frame advancePath_flush_only
        advancePath_pos advancePath_posDrawn)+

lemma split_ctx:
  "ctx (split s) = ctx s @ (if pendingPathClose s then [BeginPath] else []) @ flush_cmds (checkPathClose s)"
  by (simp add: split_def advancePath_ctx checkPathClose_effect)

lemma join_ctx:
  "ctx (join s) =
     ctx s @ (if pendingPathClose s then [BeginPath] else []) @ flush_cmds (checkPathClose s)
           @ (case drawCurve s of None \<Rightarrow> [] | Some c \<Rightarrow> [runCurve c (fst (pos s)) (snd (pos s))])"
  by (simp add: join_def Let_def xy_ctx xy_fields advancePath_ctx advancePath_frame advancePath_pos
      advancePath_posDrawn checkPathClose_effect flush_cmds_def split: option.splits)

lemma join_fields:
  "pos (join s) = pos s"
  "posDrawn (join s) = False"
  "posStart (join s) = posStart (advancePath None None (checkPathClose s))"
  "drawCurve (join s) = None"
  "pendingPathClose (join s) = False"
  "pendingText (join s) = (if pendingPathClose s then [] else pendingText s)"
  by (simp_all add: join_def Let_def xy_fields advancePath_frame advancePath_pos
      advancePath_posDrawn advancePath_posStart checkPathClose_effect)

lemma close_ctx:
  "ctx (close s) =
     ctx s @ (if pendingPathClose s then [BeginPath] else []) @ flush_cmds (checkPathClose s)
           @ (case posStart (advancePath None None (checkPathClose s)) of
                None \<Rightarrow> []
              | Some st \<Rightarrow>
                  (case drawCurve s of None \<Rightarrow> [] | Some c \<Rightarrow> [runCurve c (fst st) (snd st)])
                  @ [LineTo (fst st) (snd st)])
           @ [ClosePath]"
  by (simp add: close_def Let_def emit_def xy_ctx xy_fields advancePath_ctx advancePath_frame
      advancePath_pos advancePath_posDrawn advancePath_posStart checkPathClose_effect flush_cmds_def
      split: option.splits)

text \<open>
  Every call that flushes the stored position, in a state with no path reset and no
  curve pending: the flush is the first thing it does to the path.
\<close>

lemma flush_by_calls:
  assumes "\<not> pendingPathClose t" and "drawCurve t = None"
  shows "issued t (advancePath a b t) = flush_cmds t"
    and "issued t (xy a b t) = flush_cmds t"
    and "issued t (split t) = flush_cmds t"
    and "issued t (join t) = flush_cmds t"
    and "issued t (close t) =
           flush_cmds t
           @ (case posStart (advancePath None None t) of
                None \<Rightarrow> [] | Some st \<Rightarrow> [LineTo (fst st) (snd st)])
           @ [ClosePath]"
    and "issued t (stroke sz col t) =
           stroke_style_cmds sz col @ flush_cmds t @ strokeTexts (pendingText t) @ [StrokeCmd]"
    and "issued t (fill fcol rule t) =
           fill_style_cmds fcol @ flush_cmds t @ fillTexts (pendingText t) @ [FillCmd rule]"
  using assms
  by (simp_all add: issued_def advancePath_ctx xy_ctx split_ctx join_ctx close_ctx stroke_ctx fill_ctx
      checkPathClose_idle split: option.splits)

subsection \<open>The end point of a consumed curve\<close>

text \<open>
  Claim C10 says that the flush that follows the consumption of a deferred curve issues
  a line to the end point of the curve. On a new object, \<open>curve(1, 1)\<close>, \<open>xy(2, 2)\<close>
  leave no subpath open, and the next flush, by \<open>stroke()\<close> or by a later point, issues a
  move to (2, 2).
\<close>

theorem curve_endpoint_moved_counterexample:
  "issued (run [Call_curve 1 1 None None, Call_xy (Some 2) (Some 2)] (constructor (300, 150)))
          (run [Call_curve 1 1 None None, Call_xy (Some 2) (Some 2), Call_stroke SizeNone None]
               (constructor (300, 150)))
     = [MoveTo 2 2, StrokeCmd]
   \<and> issued (run [Call_curve 1 1 None None, Call_xy (Some 2) (Some 2)] (constructor (300, 150)))
            (run [Call_curve 1 1 None None, Call_xy (Some 2) (Some 2), Call_xy (Some 9) (Some 9)]
                 (constructor (300, 150)))
     = [MoveTo 2 2]"
  by (simp add: issued_def curve_def stroke_def strokeTexts_def constructor_def path_defs)

text \<open>
  Claim C10, amended. After \<open>xy(ex, ey)\<close> has consumed a deferred curve, whose command
  is the last one issued, (ex, ey) is stored uncommitted, and the next flush, by a later
  \<open>xy\<close>, \<open>split\<close>, \<open>join\<close>, \<open>close\<close>, \<open>stroke\<close> or \<open>fill\<close>, issues one more command
  to (ex, ey): a line when a subpath is open then, and a move when none is, which is when
  the \<open>xy\<close> call found the stored position committed and either no subpath open or a
  path reset pending.
\<close>

theorem consumed_curve_endpoint_is_flushed_again:
  assumes "drawCurve s = Some c"
      and "s' = xy (Some ex) (Some ey) s"
      and "f = (if posDrawn s \<and> (pendingPathClose s \<or> posStart s = None)
                then MoveTo ex ey else LineTo ex ey)"
  shows "last (ctx s') = runCurve c ex ey
       \<and> pos s' = (ex, ey) \<and> posDrawn s' = False \<and> drawCurve s' = None
       \<and> issued s' (advancePath a b s') = [f]
       \<and> issued s' (xy a b s') = [f]
       \<and> issued s' (split s') = [f]
       \<and> issued s' (join s') = [f]
       \<and> (\<exists>st. issued s' (close s') = [f, LineTo (fst st) (snd st), ClosePath])
       \<and> issued s' (stroke sz col s') =
             stroke_style_cmds sz col @ [f] @ strokeTexts (pendingText s') @ [StrokeCmd]
       \<and> issued s' (fill fcol rule s') =
             fill_style_cmds fcol @ [f] @ fillTexts (pendingText s') @ [FillCmd rule]"
proof -
  have st: "\<not> pendingPathClose s'" "drawCurve s' = None" "pos s' = (ex, ey)" "posDrawn s' = False"
    unfolding assms(2) by (simp_all add: xy_fields advancePath_pos)
  have fl: "flush_cmds s' = [f]"
    unfolding assms(2,3)
    by (simp add: flush_cmds_def xy_fields advancePath_pos advancePath_posStart checkPathClose_effect)
  have lastc: "last (ctx s') = runCurve c ex ey"
    unfolding assms(2) using assms(1) by (simp add: xy_ctx xy_fields advancePath_pos)
  have "\<exists>st. posStart (advancePath None None s') = Some st"
    using st(4) by (simp add: advancePath_posStart)
  then obtain st where start: "posStart (advancePath None None s') = Some st" ..
  have cl: "\<exists>st. issued s' (close s') = [f, LineTo (fst st) (snd st), ClosePath]"
    by (rule exI [of _ st]) (simp add: flush_by_calls(5) [OF st(1,2)] fl start)
  show ?thesis
    using lastc st cl by (simp add: flush_by_calls(1-4,6-7) [OF st(1,2)] fl)
qed

text \<open>Point (0, 0), \<open>curve(5, 5)\<close>, point (10, 0), \<open>stroke()\<close>: a line to (10, 0).\<close>

theorem consumed_curve_endpoint_is_flushed_again_witness:
  "issued (xy (Some 10) (Some 0) (curve 5 5 None None (xy (Some 0) (Some 0) (constructor (300, 150)))))
          (stroke SizeNone None
             (xy (Some 10) (Some 0) (curve 5 5 None None (xy (Some 0) (Some 0) (constructor (300, 150))))))
     = [LineTo 10 0, StrokeCmd]
   \<and> ctx (run [Call_xy (Some 0) (Some 0), Call_curve 5 5 None None, Call_xy (Some 10) (Some 0),
                 Call_stroke SizeNone None] (constructor (300, 150)))
     = [MoveTo 0 0, QuadraticCurveTo 5 5 10 0, LineTo 10 0, StrokeCmd]"
proof -
  have pending: "drawCurve (curve 5 5 None None (xy (Some 0) (Some 0) (constructor (300, 150))))
      = Some (QuadraticPending 5 5)"
    by (simp add: curve_def)
  show ?thesis
    using consumed_curve_endpoint_is_flushed_again [where ex = 10 and ey = 0
        and sz = SizeNone and col = None, OF pending refl refl]
    by (simp add: curve_def stroke_def strokeTexts_def constructor_def path_defs)
qed

subsection \<open>Points followed by close\<close>





subsection \<open>Frames of the generator loop and of arc\<close>

lemma xyf_frame:
  "drawCurve (xyf ps t) = drawCurve t"
  "pendingText (xyf ps t) = pendingText t"
  "pendingPathClose (xyf ps t) = pendingPathClose t"
  "textStyle (xyf ps t) = textStyle t"
  by (induction ps t rule: xyf.induct) (simp_all add: advancePath_frame)

lemma arc_drawCurve: "drawCurve (arc r a1 a2 ac s) = drawCurve s"
  by (simp add: arc_def Let_def emit_def checkPathClose_effect)

subsection \<open>Every public call: path reset and queued text\<close>

lemma flush_cmds_no_reset: "BeginPath \<notin> set (flush_cmds t)"
  by (simp add: flush_cmds_def)

lemma style_cmds_no_reset:
  "BeginPath \<notin> set (stroke_style_cmds sz col)"
  "BeginPath \<notin> set (fill_style_cmds fcol)"
  by (cases sz; cases col; simp) (cases fcol; simp)

lemma texts_no_reset:
  "BeginPath \<notin> set (strokeTexts ts)"
  "BeginPath \<notin> set (fillTexts ts)"
  by (auto simp add: strokeTexts_def fillTexts_def)

lemma path_start_not_runCurve: "BeginPath \<noteq> runCurve c ex ey"
  by (cases c) simp_all

lemma split_fields:
  "pendingPathClose (split s) = False"
  "pendingText (split s) = (if pendingPathClose s then [] else pendingText s)"
  by (simp_all add: split_def advancePath_frame checkPathClose_effect)

lemma close_fields:
  "pendingPathClose (close s) = False"
  "pendingText (close s) = (if pendingPathClose s then [] else pendingText s)"
  by (simp_all add: close_def Let_def emit_def xy_fields advancePath_frame checkPathClose_effect
      split: option.splits)

lemma xyf_ctx: "\<exists>cs. ctx (xyf ps t) = ctx t @ cs \<and> BeginPath \<notin> set cs"
proof (induction ps t rule: xyf.induct)
  case (1 s)
  show ?case by simp
next
  case (2 a b ps s)
  then obtain cs where "ctx (xyf ps (advancePath a b s)) = ctx (advancePath a b s) @ cs"
    and "BeginPath \<notin> set cs" by blast
  then have "ctx (xyf ((a, b) # ps) s) = ctx s @ (flush_cmds s @ cs)
      \<and> BeginPath \<notin> set (flush_cmds s @ cs)"
    by (simp add: advancePath_ctx flush_cmds_no_reset)
  then show ?case by blast
qed

lemma xy_fun_reset:
  "(BeginPath \<in> set (issued s (xy_fun ps s))) = pendingPathClose s"
proof -
  obtain cs where cs: "ctx (xyf ps (checkPathClose s)) = ctx (checkPathClose s) @ cs"
    "BeginPath \<notin> set cs"
    using xyf_ctx by blast
  show ?thesis
    by (simp add: issued_def xy_fun_def cs checkPathClose_effect)
qed

lemmas call_defs = x_m_def y_m_def dxy_def dx_def dy_def rect_def square_def arc_def circle_def
  ellipse_def arcTo_def curve_def clear_def image_m_def dash_def lineStyle_def shadow_def text_m_def
  font_m_def save_def restore_def rotate_m_def scale_def translate_def

lemma exec_reset:
  "(BeginPath \<in> set (issued s (exec c s))) = (pendingPathClose s \<and> \<not> pendingPathClose (exec c s))"
proof (cases c)
  case (Call_xy_fun ps)
  then show ?thesis
    by (simp add: xy_fun_reset) (simp add: xy_fun_def xyf_frame checkPathClose_effect)
next
  case (Call_stroke sz col)
  then show ?thesis
    by (simp add: issued_def stroke_ctx stroke_fields flush_cmds_no_reset style_cmds_no_reset
        texts_no_reset)
next
  case (Call_fill col rule)
  then show ?thesis
    by (simp add: issued_def fill_ctx fill_fields flush_cmds_no_reset style_cmds_no_reset
        texts_no_reset)
qed (simp_all add: issued_def call_defs xy_ctx xy_fields split_ctx split_fields join_ctx join_fields
      close_ctx close_fields flush_cmds_no_reset path_start_not_runCurve Let_def emit_def
      checkPathClose_effect split: option.splits)

lemma exec_pendingText:
  "pendingText (exec c s) =
     (if pendingPathClose s \<and> \<not> pendingPathClose (exec c s) then [] else pendingText s)
     @ (case c of Call_text str al bl \<Rightarrow> [(str, pos s, textStyle (exec c s))] | _ \<Rightarrow> [])"
  by (cases c)
     (simp_all add: call_defs xy_fields xy_fun_def xyf_frame split_fields join_fields close_fields
        stroke_fields fill_fields Let_def emit_def checkPathClose_effect)

lemma exec_keeps_path_open:
  "\<not> is_paint c \<Longrightarrow> \<not> pendingPathClose s \<Longrightarrow> \<not> pendingPathClose (exec c s)"
  by (cases c)
     (simp_all add: call_defs xy_fields xy_fun_def xyf_frame split_fields join_fields close_fields
        Let_def emit_def checkPathClose_effect)

text \<open>
  With a path reset pending, every path-mutating call other than \<open>circle\<close> issues
  \<open>beginPath\<close> first; \<open>circle\<close> issues it second, after its move.
\<close>

lemma reset_is_first:
  assumes "pendingPathClose s"
  shows "take 1 (issued s (xy a b s)) = [BeginPath]"
    and "take 1 (issued s (xy_fun ps s)) = [BeginPath]"
    and "take 1 (issued s (x_m v s)) = [BeginPath]"
    and "take 1 (issued s (y_m v s)) = [BeginPath]"
    and "take 1 (issued s (dxy v w s)) = [BeginPath]"
    and "take 1 (issued s (dx v s)) = [BeginPath]"
    and "take 1 (issued s (dy v s)) = [BeginPath]"
    and "take 1 (issued s (close s)) = [BeginPath]"
    and "take 1 (issued s (rect wd ht ce s)) = [BeginPath]"
    and "take 1 (issued s (square sd ce s)) = [BeginPath]"
    and "take 1 (issued s (arc r a1 a2 ac s)) = [BeginPath]"
    and "take 1 (issued s (ellipse rx ry rot e1 e2 ac s)) = [BeginPath]"
    and "take 1 (issued s (split s)) = [BeginPath]"
    and "take 1 (issued s (join s)) = [BeginPath]"
proof -
  obtain cs where "ctx (xyf ps (checkPathClose s)) = ctx (checkPathClose s) @ cs"
    using xyf_ctx by blast
  then show "take 1 (issued s (xy_fun ps s)) = [BeginPath]"
    using assms by (simp add: issued_def xy_fun_def checkPathClose_effect)
qed (use assms in \<open>simp_all add: issued_def call_defs xy_ctx split_ctx join_ctx close_ctx Let_def
      emit_def checkPathClose_effect\<close>)

lemma circle_reset_second:
  "pendingPathClose s \<Longrightarrow>
   take 2 (issued s (circle r s)) = [MoveTo (fst (pos s) + r) (snd (pos s)), BeginPath]"
  by (simp add: issued_def circle_def arc_def Let_def emit_def checkPathClose_def)

subsection \<open>When the queued text is cleared\<close>

lemma texts_drawn_append: "texts_drawn (xs @ ys) = texts_drawn xs @ texts_drawn ys"
  by (simp add: texts_drawn_def)

lemma texts_drawn_flush: "texts_drawn (flush_cmds t) = []"
  by (simp add: texts_drawn_def flush_cmds_def)

lemma texts_drawn_stroke_style: "texts_drawn (stroke_style_cmds sz col) = []"
  by (cases sz; cases col) (simp_all add: texts_drawn_def)

lemma texts_drawn_fill_style: "texts_drawn (fill_style_cmds fcol) = []"
  by (cases fcol) (simp_all add: texts_drawn_def)

lemmas texts_drawn_path = texts_drawn_flush texts_drawn_stroke_style texts_drawn_fill_style

lemma texts_drawn_texts:
  "texts_drawn (strokeTexts ts) = map (\<lambda>(str, p, style). (str, fst p, snd p)) ts"
  "texts_drawn (fillTexts ts) = map (\<lambda>(str, p, style). (str, fst p, snd p)) ts"
  by (induction ts) (auto simp add: texts_drawn_def strokeTexts_def fillTexts_def)

lemma paint_draws_texts:
  assumes "is_paint p1"
  shows "texts_drawn (issued s (exec p1 s)) = map (\<lambda>(str, p, style). (str, fst p, snd p)) (pendingText s)"
    and "pendingText (exec p1 s) = pendingText s"
proof -
  have "texts_drawn (issued s (exec p1 s)) = map (\<lambda>(str, p, style). (str, fst p, snd p)) (pendingText s)
      \<and> pendingText (exec p1 s) = pendingText s"
  proof (cases p1)
    case (Call_stroke sz col)
    then show ?thesis
      by (simp add: issued_def stroke_ctx stroke_fields texts_drawn_append texts_drawn_path
          texts_drawn_texts)
         (simp add: texts_drawn_def)
  next
    case (Call_fill fcol rule)
    then show ?thesis
      by (simp add: issued_def fill_ctx fill_fields texts_drawn_append texts_drawn_path
          texts_drawn_texts)
         (simp add: texts_drawn_def)
  qed (use assms in simp_all)
  then show "texts_drawn (issued s (exec p1 s)) = map (\<lambda>(str, p, style). (str, fst p, snd p)) (pendingText s)"
    and "pendingText (exec p1 s) = pendingText s"
    by simp_all
qed

text \<open>
  Claim C9. For every public call, \<open>pendingText\<close> afterwards is the queue of before,
  emptied exactly when the call issues \<open>beginPath\<close>, plus the entry that \<open>text\<close> adds;
  and a call issues \<open>beginPath\<close> exactly when \<open>pendingPathClose\<close> was set and the call
  resets it. \<open>stroke\<close> and \<open>fill\<close> leave the queue as it is: a paint draws every
  queued text once, in order, and so does a second paint that follows it directly.
\<close>

theorem pendingText_cleared_only_by_path_reset:
  assumes "is_paint p1" and "is_paint p2"
  shows "pendingText (exec c s) =
           (if BeginPath \<in> set (issued s (exec c s)) then [] else pendingText s)
           @ (case c of Call_text str al bl \<Rightarrow> [(str, pos s, textStyle (exec c s))] | _ \<Rightarrow> [])
       \<and> (BeginPath \<in> set (issued s (exec c s))) =
             (pendingPathClose s \<and> \<not> pendingPathClose (exec c s))
       \<and> pendingText (exec p1 s) = pendingText s
       \<and> texts_drawn (issued s (exec p1 s)) =
             map (\<lambda>(str, p, style). (str, fst p, snd p)) (pendingText s)
       \<and> texts_drawn (issued (exec p1 s) (exec p2 (exec p1 s))) =
             map (\<lambda>(str, p, style). (str, fst p, snd p)) (pendingText s)"
proof -
  have cleared: "pendingText (exec c s) =
      (if BeginPath \<in> set (issued s (exec c s)) then [] else pendingText s)
      @ (case c of Call_text str al bl \<Rightarrow> [(str, pos s, textStyle (exec c s))] | _ \<Rightarrow> [])"
    unfolding exec_reset by (rule exec_pendingText)
  have again: "texts_drawn (issued (exec p1 s) (exec p2 (exec p1 s))) =
      map (\<lambda>(str, p, style). (str, fst p, snd p)) (pendingText s)"
    unfolding paint_draws_texts(1) [OF assms(2)] paint_draws_texts(2) [OF assms(1)] ..
  show ?thesis
    by (intro conjI cleared exec_reset again paint_draws_texts [OF assms(1)])
qed

text \<open>
  Point (1, 2), \<open>text("A")\<close>, \<open>stroke()\<close>: a point then empties the queue, while
  \<open>fill()\<close> keeps it and a further \<open>stroke()\<close> draws the text again.
\<close>

theorem pendingText_cleared_only_by_path_reset_witness:
  "pendingText (xy (Some 5) (Some 5)
      (stroke SizeNone None (text_m ''A'' None None (xy (Some 1) (Some 2) (constructor (300, 150))))))
     = []
   \<and> pendingText (fill None None
      (stroke SizeNone None (text_m ''A'' None None (xy (Some 1) (Some 2) (constructor (300, 150))))))
     = [(''A'', (1, 2), \<lparr> font = None, textAlign = Some ''start'', textBaseline = Some ''alphabetic'' \<rparr>)]
   \<and> texts_drawn (issued
        (fill None None
           (stroke SizeNone None (text_m ''A'' None None (xy (Some 1) (Some 2) (constructor (300, 150))))))
        (stroke SizeNone None (fill None None
           (stroke SizeNone None (text_m ''A'' None None (xy (Some 1) (Some 2) (constructor (300, 150))))))))
     = [(''A'', 1, 2)]"
proof -
  have paints: "is_paint (Call_fill None None)" "is_paint (Call_stroke SizeNone None)"
    by simp_all
  show ?thesis
    using pendingText_cleared_only_by_path_reset [OF paints, where c = "Call_xy (Some 5) (Some 5)"
        and s = "stroke SizeNone None (text_m ''A'' None None (xy (Some 1) (Some 2) (constructor (300, 150))))"]
    by (simp add: issued_def stroke_def fill_def text_m_def or_default_def strokeTexts_def
        fillTexts_def constructor_def xy_def checkPathClose_def advancePath_def emit_def emits_def
        Let_def)
qed

subsection \<open>Queued text is painted from its snapshots\<close>

lemma run_keeps_texts:
  "\<not> list_ex is_paint cs \<Longrightarrow> \<not> pendingPathClose t \<Longrightarrow>
   \<not> pendingPathClose (run cs t) \<and> (\<exists>e. pendingText (run cs t) = pendingText t @ e)"
proof (induction cs arbitrary: t)
  case Nil
  then show ?case by simp
next
  case (Cons c cs)
  have c: "\<not> is_paint c" and cs: "\<not> list_ex is_paint cs"
    using Cons.prems(1) by simp_all
  have open': "\<not> pendingPathClose (exec c t)"
    using c Cons.prems(2) by (rule exec_keeps_path_open)
  obtain e1 where e1: "pendingText (exec c t) = pendingText t @ e1"
    using exec_pendingText [of c t] Cons.prems(2) by simp
  from Cons.IH [OF cs open'] obtain e2
    where "\<not> pendingPathClose (run cs (exec c t))"
      and "pendingText (run cs (exec c t)) = pendingText (exec c t) @ e2"
    by blast
  then show ?case
    by (simp add: e1)
qed

lemma text_m_fields:
  "pendingPathClose (text_m str al bl s) = False"
  "pendingText (text_m str al bl s) =
     (if pendingPathClose s then [] else pendingText s)
     @ [(str, pos s, (textStyle s)\<lparr> textAlign := Some (or_default al ''start''),
                                      textBaseline := Some (or_default bl ''alphabetic'') \<rparr>)]"
  by (simp_all add: text_m_def Let_def checkPathClose_effect)

lemma texts_append:
  "strokeTexts (xs @ ys) = strokeTexts xs @ strokeTexts ys"
  "fillTexts (xs @ ys) = fillTexts xs @ fillTexts ys"
  by (simp_all add: strokeTexts_def fillTexts_def)

text \<open>
  Claim C8. Let \<open>text(strA)\<close> be called in state \<open>s\<close> and \<open>text(strB)\<close> in a later state
  \<open>s2\<close>, with any calls other than \<open>stroke\<close> and \<open>fill\<close> between them and after them
  (points and fonts among them, so that the position and the text style change). Then
  \<open>fill\<close> draws \<open>strA\<close> at the position of \<open>s\<close> under the style that \<open>text(strA)\<close>
  recorded, and later \<open>strB\<close> at the position of \<open>s2\<close> under the style that
  \<open>text(strB)\<close> recorded, each right after the assignment of its style; \<open>stroke\<close> does
  the same.
\<close>

theorem queued_texts_painted_from_snapshots:
  assumes "\<not> list_ex is_paint mid1" and "\<not> list_ex is_paint mid2"
      and "s2 = run mid1 (text_m strA alA blA s)"
      and "s4 = run mid2 (text_m strB alB blB s2)"
      and "styleA = (textStyle s)\<lparr> textAlign := Some (or_default alA ''start''),
                                    textBaseline := Some (or_default blA ''alphabetic'') \<rparr>"
      and "styleB = (textStyle s2)\<lparr> textAlign := Some (or_default alB ''start''),
                                     textBaseline := Some (or_default blB ''alphabetic'') \<rparr>"
  shows "(\<exists>pre mid post. issued s4 (fill fcol rule s4) =
            pre @ [Assign styleA, FillText strA (fst (pos s)) (snd (pos s))]
            @ mid @ [Assign styleB, FillText strB (fst (pos s2)) (snd (pos s2))] @ post)
       \<and> (\<exists>pre mid post. issued s4 (stroke sz col s4) =
            pre @ [Assign styleA, StrokeText strA (fst (pos s)) (snd (pos s))]
            @ mid @ [Assign styleB, StrokeText strB (fst (pos s2)) (snd (pos s2))] @ post)"
proof -
  let ?A = "(strA, pos s, styleA)" and ?B = "(strB, pos s2, styleB)"
  let ?P = "if pendingPathClose s then [] else pendingText s"
  have s1: "\<not> pendingPathClose (text_m strA alA blA s)"
    "pendingText (text_m strA alA blA s) = ?P @ [?A]"
    by (simp_all add: text_m_fields assms(5))
  from run_keeps_texts [OF assms(1) s1(1)] obtain e1
    where s2: "\<not> pendingPathClose s2" "pendingText s2 = ?P @ [?A] @ e1"
    unfolding assms(3) s1(2) by auto
  have s3: "\<not> pendingPathClose (text_m strB alB blB s2)"
    "pendingText (text_m strB alB blB s2) = ?P @ [?A] @ e1 @ [?B]"
    using s2 by (simp_all add: text_m_fields assms(6))
  from run_keeps_texts [OF assms(2) s3(1)] obtain e2
    where s4: "pendingText s4 = ?P @ [?A] @ e1 @ [?B] @ e2"
    unfolding assms(4) s3(2) by auto
  have f: "issued s4 (fill fcol rule s4) =
      (fill_style_cmds fcol @ flush_cmds s4 @ fillTexts ?P)
      @ [Assign styleA, FillText strA (fst (pos s)) (snd (pos s))]
      @ fillTexts e1 @ [Assign styleB, FillText strB (fst (pos s2)) (snd (pos s2))]
      @ (fillTexts e2 @ [FillCmd rule])"
    by (simp add: issued_def fill_ctx s4 texts_append) (simp add: fillTexts_def)
  have k: "issued s4 (stroke sz col s4) =
      (stroke_style_cmds sz col @ flush_cmds s4 @ strokeTexts ?P)
      @ [Assign styleA, StrokeText strA (fst (pos s)) (snd (pos s))]
      @ strokeTexts e1 @ [Assign styleB, StrokeText strB (fst (pos s2)) (snd (pos s2))]
      @ (strokeTexts e2 @ [StrokeCmd])"
    by (simp add: issued_def stroke_ctx s4 texts_append) (simp add: strokeTexts_def)
  show ?thesis
    using f k by blast
qed

text \<open>The position and the font change after each of the two texts.\<close>

theorem queued_texts_painted_from_snapshots_witness:
  "issued (run [Call_xy (Some 1) (Some 2), Call_text ''A'' None None, Call_xy (Some 3) (Some 4),
                Call_font ''bold'', Call_text ''B'' (Some ''center'') None, Call_xy (Some 9) (Some 9),
                Call_font ''thin''] (constructor (300, 150)))
          (run [Call_xy (Some 1) (Some 2), Call_text ''A'' None None, Call_xy (Some 3) (Some 4),
                Call_font ''bold'', Call_text ''B'' (Some ''center'') None, Call_xy (Some 9) (Some 9),
                Call_font ''thin'', Call_fill None None] (constructor (300, 150)))
     = [MoveTo 9 9,
        Assign \<lparr> font = None, textAlign = Some ''start'', textBaseline = Some ''alphabetic'' \<rparr>,
        FillText ''A'' 1 2,
        Assign \<lparr> font = Some ''bold'', textAlign = Some ''center'', textBaseline = Some ''alphabetic'' \<rparr>,
        FillText ''B'' 3 4,
        FillCmd None]"
proof -
  have mids: "\<not> list_ex is_paint [Call_xy (Some 3) (Some 4), Call_font ''bold'']"
    "\<not> list_ex is_paint [Call_xy (Some 9) (Some 9), Call_font ''thin'']"
    by simp_all
  show ?thesis
    using queued_texts_painted_from_snapshots [OF mids refl refl refl refl,
        where s = "xy (Some 1) (Some 2) (constructor (300, 150))" and strA = "''A''" and alA = None
        and blA = None and strB = "''B''" and alB = "Some ''center''" and blB = None
        and fcol = None and rule = None]
    by (simp add: issued_def fill_def text_m_def font_m_def or_default_def fillTexts_def
        constructor_def xy_def checkPathClose_def advancePath_def emit_def emits_def Let_def)
qed

subsection \<open>Every form of a point-adding call\<close>

lemma point_call:
  "point_of c t = Some q \<Longrightarrow> exec c t = xy (Some (fst q)) (Some (snd q)) t"
  by (induction c t rule: point_of.induct) (auto simp add: x_m_def y_m_def dxy_def dx_def dy_def)

lemma xyf_yields:
  "ctx (xyf (yields (r # rs)) t) =
     ctx t @ flush_cmds t
     @ (if rs = [] then []
        else (if posDrawn t \<and> posStart t = None then MoveTo (fst r) (snd r)
              else LineTo (fst r) (snd r))
             # map (\<lambda>p. LineTo (fst p) (snd p)) (butlast rs))
   \<and> flush_cmds (xyf (yields (r # rs)) t) =
       [if rs = [] then (if posDrawn t \<and> posStart t = None then MoveTo (fst r) (snd r)
                         else LineTo (fst r) (snd r))
        else LineTo (fst (last rs)) (snd (last rs))]
   \<and> pos (xyf (yields (r # rs)) t) = last (r # rs)
   \<and> posDrawn (xyf (yields (r # rs)) t) = False"
proof (induction rs arbitrary: t r)
  case Nil
  show ?case
    by (auto simp add: yields_def advancePath_ctx advancePath_pos advancePath_posDrawn
        advancePath_posStart flush_cmds_def)
next
  case (Cons r' rs')
  let ?t1 = "advancePath (Some (fst r)) (Some (snd r)) t"
  have step: "xyf (yields (r # r' # rs')) t = xyf (yields (r' # rs')) ?t1"
    by (simp add: yields_def)
  have t1: "ctx ?t1 = ctx t @ flush_cmds t" "posDrawn ?t1 = False" "pos ?t1 = r"
    "flush_cmds ?t1 = [if posDrawn t \<and> posStart t = None then MoveTo (fst r) (snd r)
                       else LineTo (fst r) (snd r)]"
    by (auto simp add: advancePath_ctx advancePath_pos advancePath_posDrawn advancePath_posStart
        flush_cmds_def)
  show ?case
    unfolding step using Cons.IH [of r' ?t1] by (simp add: t1)
qed

lemma exec_off_path:
  "off_path c \<Longrightarrow>
   pendingPathClose (exec c t) = pendingPathClose t \<and> posDrawn (exec c t) = posDrawn t
   \<and> (\<exists>m. ctx (exec c t) = ctx t @ m \<and> BeginPath \<notin> set m)"
  by (cases c) (simp_all add: call_defs emit_def)

lemma run_off_path:
  "list_all off_path mid \<Longrightarrow>
   pendingPathClose (run mid t) = pendingPathClose t \<and> posDrawn (run mid t) = posDrawn t
   \<and> (\<exists>m. ctx (run mid t) = ctx t @ m \<and> BeginPath \<notin> set m)"
proof (induction mid arbitrary: t)
  case Nil
  show ?case by simp
next
  case (Cons c cs)
  from Cons.prems have c: "off_path c" and cs: "list_all off_path cs"
    by simp_all
  from exec_off_path [OF c, of t] obtain m1
    where e: "pendingPathClose (exec c t) = pendingPathClose t" "posDrawn (exec c t) = posDrawn t"
      "ctx (exec c t) = ctx t @ m1" "BeginPath \<notin> set m1"
    by blast
  from Cons.IH [OF cs, of "exec c t"] obtain m2
    where r: "pendingPathClose (run cs (exec c t)) = pendingPathClose (exec c t)"
      "posDrawn (run cs (exec c t)) = posDrawn (exec c t)"
      "ctx (run cs (exec c t)) = ctx (exec c t) @ m2" "BeginPath \<notin> set m2"
    by blast
  have "ctx (run (c # cs) t) = ctx t @ (m1 @ m2) \<and> BeginPath \<notin> set (m1 @ m2)"
    using e r by simp
  then have "\<exists>m. ctx (run (c # cs) t) = ctx t @ m \<and> BeginPath \<notin> set m"
    by blast
  moreover have "pendingPathClose (run (c # cs) t) = pendingPathClose t"
    "posDrawn (run (c # cs) t) = posDrawn t"
    using e r by simp_all
  ultimately show ?case by blast
qed

subsection \<open>The lifetime of a deferred curve\<close>

text \<open>
  Claim C6 says that \<open>drawCurve\<close> is null after \<open>close\<close>, \<open>split\<close> or a shape call.
  On a new object, \<open>curve(1, 1)\<close> is still pending after \<open>split()\<close>, after
  \<open>rect(2, 3)\<close> and after \<open>close()\<close>; carried across a \<open>split()\<close>, it is drawn by the
  next point.
\<close>

theorem shapes_keep_curve_counterexample:
  "drawCurve (run [Call_curve 1 1 None None, Call_split] (constructor (300, 150)))
     = Some (QuadraticPending 1 1)
   \<and> drawCurve (run [Call_curve 1 1 None None, Call_rect 2 3 False] (constructor (300, 150)))
     = Some (QuadraticPending 1 1)
   \<and> drawCurve (run [Call_curve 1 1 None None, Call_close] (constructor (300, 150)))
     = Some (QuadraticPending 1 1)
   \<and> ctx (run [Call_xy (Some 0) (Some 0), Call_curve 1 1 None None, Call_split,
                Call_xy (Some 2) (Some 2)] (constructor (300, 150)))
     = [MoveTo 0 0, QuadraticCurveTo 1 1 2 2]"
  by (simp add: curve_def split_def rect_def close_def constructor_def xy_def checkPathClose_def
      advancePath_def emit_def Let_def)

text \<open>
  Claim C6, amended. \<open>arcTo\<close> and \<open>curve\<close> set \<open>drawCurve\<close>. While it is set, the next
  call of \<open>xy\<close> with numeric arguments, made directly or through \<open>x\<close>, \<open>y\<close>, \<open>dxy\<close>,
  \<open>dx\<close>, \<open>dy\<close> or \<open>join\<close>, issues the curve command once, as the last command of the
  call and with the point the call stores as its end, and clears \<open>drawCurve\<close>, so that an
  \<open>xy\<close> call after it only flushes. \<open>close\<close> does the same, towards the subpath start
  and before its closing line, when a subpath is open after its flush, and leaves
  \<open>drawCurve\<close> set when none is. \<open>split\<close>, \<open>rect\<close>, \<open>square\<close>, \<open>arc\<close>, \<open>circle\<close>,
  \<open>ellipse\<close> and \<open>xy\<close> with a generator leave it set.
\<close>

theorem drawCurve_lifetime:
  assumes "drawCurve s = Some c"
  shows "drawCurve (arcTo cx cy cr s0) = Some (ArcToPending cx cy cr)
       \<and> drawCurve (curve x1 y1 None None s0) = Some (QuadraticPending x1 y1)
       \<and> drawCurve (curve x1 y1 (Some x2) (Some y2) s0) = Some (BezierPending x1 y1 x2 y2)
       \<and> drawCurve (xy a b s) = None
       \<and> issued s (xy a b s) =
             (if pendingPathClose s then [BeginPath] else []) @ flush_cmds (checkPathClose s)
             @ [runCurve c (fst (pos (xy a b s))) (snd (pos (xy a b s)))]
       \<and> issued (xy a b s) (xy a' b' (xy a b s)) = flush_cmds (xy a b s)
       \<and> drawCurve (x_m v s) = None
       \<and> issued s (x_m v s) =
             (if pendingPathClose s then [BeginPath] else []) @ flush_cmds (checkPathClose s)
             @ [runCurve c v (snd (pos s))]
       \<and> issued (x_m v s) (xy a' b' (x_m v s)) = flush_cmds (x_m v s)
       \<and> drawCurve (y_m v s) = None
       \<and> issued s (y_m v s) =
             (if pendingPathClose s then [BeginPath] else []) @ flush_cmds (checkPathClose s)
             @ [runCurve c (fst (pos s)) v]
       \<and> issued (y_m v s) (xy a' b' (y_m v s)) = flush_cmds (y_m v s)
       \<and> drawCurve (dxy v w s) = None
       \<and> issued s (dxy v w s) =
             (if pendingPathClose s then [BeginPath] else []) @ flush_cmds (checkPathClose s)
             @ [runCurve c (fst (pos s) + v) (snd (pos s) + w)]
       \<and> issued (dxy v w s) (xy a' b' (dxy v w s)) = flush_cmds (dxy v w s)
       \<and> drawCurve (dx v s) = None
       \<and> issued s (dx v s) =
             (if pendingPathClose s then [BeginPath] else []) @ flush_cmds (checkPathClose s)
             @ [runCurve c (fst (pos s) + v) (snd (pos s) + 0)]
       \<and> issued (dx v s) (xy a' b' (dx v s)) = flush_cmds (dx v s)
       \<and> drawCurve (dy v s) = None
       \<and> issued s (dy v s) =
             (if pendingPathClose s then [BeginPath] else []) @ flush_cmds (checkPathClose s)
             @ [runCurve c (fst (pos s) + 0) (snd (pos s) + v)]
       \<and> issued (dy v s) (xy a' b' (dy v s)) = flush_cmds (dy v s)
       \<and> drawCurve (join s) = None
       \<and> issued s (join s) =
             (if pendingPathClose s then [BeginPath] else []) @ flush_cmds (checkPathClose s)
             @ [runCurve c (fst (pos s)) (snd (pos s))]
       \<and> issued (join s) (xy a' b' (join s)) = flush_cmds (join s)
       \<and> drawCurve (close s) =
             (if posDrawn s \<and> (pendingPathClose s \<or> posStart s = None) then Some c else None)
       \<and> issued s (close s) =
             (if pendingPathClose s then [BeginPath] else []) @ flush_cmds (checkPathClose s)
             @ (case posStart (advancePath None None (checkPathClose s)) of
                  None \<Rightarrow> []
                | Some st \<Rightarrow> [runCurve c (fst st) (snd st), LineTo (fst st) (snd st)])
             @ [ClosePath]
       \<and> drawCurve (split s) = Some c
       \<and> drawCurve (rect wd ht ce s) = Some c
       \<and> drawCurve (square sd ce s) = Some c
       \<and> drawCurve (arc r a1 a2 ac s) = Some c
       \<and> drawCurve (circle r s) = Some c
       \<and> drawCurve (ellipse rx ry rot e1 e2 ac s) = Some c
       \<and> drawCurve (xy_fun ps s) = Some c"
proof -
  have setters: "drawCurve (arcTo cx cy cr s0) = Some (ArcToPending cx cy cr)"
    "drawCurve (curve x1 y1 None None s0) = Some (QuadraticPending x1 y1)"
    "drawCurve (curve x1 y1 (Some x2) (Some y2) s0) = Some (BezierPending x1 y1 x2 y2)"
    by (simp_all add: arcTo_def curve_def)
  have consumed: "issued s (xy a b s) =
      (if pendingPathClose s then [BeginPath] else []) @ flush_cmds (checkPathClose s)
      @ [runCurve c (fst (pos (xy a b s))) (snd (pos (xy a b s)))]" for a b
    using assms by (simp add: issued_def xy_ctx)
  have once: "issued (xy a b s) (xy a' b' (xy a b s)) = flush_cmds (xy a b s)" for a b
    by (simp add: flush_by_calls(2) xy_fields)
  have through:
    "issued s (x_m v s) =
       (if pendingPathClose s then [BeginPath] else []) @ flush_cmds (checkPathClose s)
       @ [runCurve c v (snd (pos s))]"
    "issued s (y_m v s) =
       (if pendingPathClose s then [BeginPath] else []) @ flush_cmds (checkPathClose s)
       @ [runCurve c (fst (pos s)) v]"
    "issued s (dxy v w s) =
       (if pendingPathClose s then [BeginPath] else []) @ flush_cmds (checkPathClose s)
       @ [runCurve c (fst (pos s) + v) (snd (pos s) + w)]"
    "issued s (dx v s) =
       (if pendingPathClose s then [BeginPath] else []) @ flush_cmds (checkPathClose s)
       @ [runCurve c (fst (pos s) + v) (snd (pos s) + 0)]"
    "issued s (dy v s) =
       (if pendingPathClose s then [BeginPath] else []) @ flush_cmds (checkPathClose s)
       @ [runCurve c (fst (pos s) + 0) (snd (pos s) + v)]"
    unfolding x_m_def y_m_def dxy_def dx_def dy_def consumed
    by (simp_all add: xy_fields advancePath_pos)
  have again:
    "issued (x_m v s) (xy a' b' (x_m v s)) = flush_cmds (x_m v s)"
    "issued (y_m v s) (xy a' b' (y_m v s)) = flush_cmds (y_m v s)"
    "issued (dxy v w s) (xy a' b' (dxy v w s)) = flush_cmds (dxy v w s)"
    "issued (dx v s) (xy a' b' (dx v s)) = flush_cmds (dx v s)"
    "issued (dy v s) (xy a' b' (dy v s)) = flush_cmds (dy v s)"
    "issued (join s) (xy a' b' (join s)) = flush_cmds (join s)"
    unfolding x_m_def y_m_def dxy_def dx_def dy_def
    by (simp_all add: once flush_by_calls(2) join_fields)
  have cleared: "drawCurve (x_m v s) = None" "drawCurve (y_m v s) = None"
    "drawCurve (dxy v w s) = None" "drawCurve (dx v s) = None" "drawCurve (dy v s) = None"
    "drawCurve (join s) = None" "drawCurve (xy a b s) = None"
    by (simp_all add: x_m_def y_m_def dxy_def dx_def dy_def xy_fields join_fields)
  have jn: "issued s (join s) =
      (if pendingPathClose s then [BeginPath] else []) @ flush_cmds (checkPathClose s)
      @ [runCurve c (fst (pos s)) (snd (pos s))]"
    using assms by (simp add: issued_def join_ctx)
  have cl: "drawCurve (close s) =
      (if posDrawn s \<and> (pendingPathClose s \<or> posStart s = None) then Some c else None)"
    using assms
    by (auto simp add: close_def Let_def emit_def xy_fields advancePath_frame advancePath_posStart
        checkPathClose_effect split: option.splits)
  have cl_ctx: "issued s (close s) =
      (if pendingPathClose s then [BeginPath] else []) @ flush_cmds (checkPathClose s)
      @ (case posStart (advancePath None None (checkPathClose s)) of
           None \<Rightarrow> []
         | Some st \<Rightarrow> [runCurve c (fst st) (snd st), LineTo (fst st) (snd st)])
      @ [ClosePath]"
    using assms by (simp add: issued_def close_ctx split: option.splits)
  have carried: "drawCurve (split s) = Some c" "drawCurve (rect wd ht ce s) = Some c"
    "drawCurve (square sd ce s) = Some c" "drawCurve (arc r a1 a2 ac s) = Some c"
    "drawCurve (circle r s) = Some c" "drawCurve (ellipse rx ry rot e1 e2 ac s) = Some c"
    "drawCurve (xy_fun ps s) = Some c"
    using assms
    by (simp_all add: split_def rect_def square_def arc_drawCurve circle_def ellipse_def xy_fun_def
        xyf_frame Let_def emit_def advancePath_frame checkPathClose_effect)
  show ?thesis
    by (intro conjI setters consumed once through again cleared jn cl cl_ctx carried)
qed

text \<open>
  Point (0, 0), \<open>curve(1, 1)\<close>, and then the point (2, 2), \<open>dxy(2, 3)\<close>, \<open>join()\<close>,
  \<open>close()\<close> or \<open>split()\<close>.
\<close>

theorem drawCurve_lifetime_witness:
  "issued (curve 1 1 None None (xy (Some 0) (Some 0) (constructor (300, 150))))
          (xy (Some 2) (Some 2) (curve 1 1 None None (xy (Some 0) (Some 0) (constructor (300, 150)))))
     = [MoveTo 0 0, QuadraticCurveTo 1 1 2 2]
   \<and> drawCurve (xy (Some 2) (Some 2) (curve 1 1 None None (xy (Some 0) (Some 0) (constructor (300, 150)))))
     = None
   \<and> issued (curve 1 1 None None (xy (Some 0) (Some 0) (constructor (300, 150))))
            (dxy 2 3 (curve 1 1 None None (xy (Some 0) (Some 0) (constructor (300, 150)))))
     = [MoveTo 0 0, QuadraticCurveTo 1 1 2 3]
   \<and> issued (curve 1 1 None None (xy (Some 0) (Some 0) (constructor (300, 150))))
            (join (curve 1 1 None None (xy (Some 0) (Some 0) (constructor (300, 150)))))
     = [MoveTo 0 0, QuadraticCurveTo 1 1 0 0]
   \<and> issued (curve 1 1 None None (xy (Some 0) (Some 0) (constructor (300, 150))))
            (close (curve 1 1 None None (xy (Some 0) (Some 0) (constructor (300, 150)))))
     = [MoveTo 0 0, QuadraticCurveTo 1 1 0 0, LineTo 0 0, ClosePath]
   \<and> drawCurve (split (curve 1 1 None None (xy (Some 0) (Some 0) (constructor (300, 150)))))
     = Some (QuadraticPending 1 1)"
proof -
  have pending: "drawCurve (curve 1 1 None None (xy (Some 0) (Some 0) (constructor (300, 150))))
      = Some (QuadraticPending 1 1)"
    by (simp add: curve_def)
  show ?thesis
    using drawCurve_lifetime [OF pending, where a = "Some 2" and b = "Some 2" and v = 2 and w = 3]
    by (simp add: curve_def flush_cmds_def constructor_def xy_def checkPathClose_def
        advancePath_def emit_def Let_def)
qed

subsection \<open>The first point after a paint\<close>

lemma lines_snoc:
  "rs \<noteq> [] \<Longrightarrow>
   map (\<lambda>p. LineTo (fst p) (snd p)) (butlast rs) @ [LineTo (fst (last rs)) (snd (last rs))]
     = map (\<lambda>p. LineTo (fst p) (snd p)) rs"
  by (induction rs rule: rev_induct) simp_all

lemma lines_no_reset: "filter (\<lambda>k. k = BeginPath) (map (\<lambda>p. LineTo (fst p) (snd p)) rs) = []"
  by (induction rs) simp_all

lemma point_after_reset:
  assumes "pendingPathClose t" and "posDrawn t" and "u = xy (Some (fst q)) (Some (snd q)) t"
  shows "issued t u =
           BeginPath # (case drawCurve t of None \<Rightarrow> [] | Some cv \<Rightarrow> [runCurve cv (fst q) (snd q)])"
    and "flush_cmds u = [MoveTo (fst q) (snd q)]"
    and "\<not> pendingPathClose u" and "drawCurve u = None" and "pendingText u = []"
    and "posStart (advancePath None None u) = Some q"
    and "ctx u =
           ctx t @ BeginPath # (case drawCurve t of None \<Rightarrow> [] | Some cv \<Rightarrow> [runCurve cv (fst q) (snd q)])"
  using assms
  by (simp_all add: issued_def xy_ctx xy_fields flush_cmds_def checkPathClose_effect
      advancePath_pos advancePath_posStart advancePath_posDrawn split: option.splits)

lemma generator_after_reset:
  assumes "pendingPathClose t" and "posDrawn t" and "g = xy_fun (yields (r # rs)) t"
  shows "issued t g =
           BeginPath # (if rs = [] then []
                        else MoveTo (fst r) (snd r) # map (\<lambda>p. LineTo (fst p) (snd p)) (butlast rs))"
    and "flush_cmds g =
           [if rs = [] then MoveTo (fst r) (snd r) else LineTo (fst (last rs)) (snd (last rs))]"
    and "\<not> pendingPathClose g" and "pendingText g = []"
    and "ctx g =
           ctx t @ BeginPath # (if rs = [] then []
                        else MoveTo (fst r) (snd r) # map (\<lambda>p. LineTo (fst p) (snd p)) (butlast rs))"
proof -
  have reset: "posDrawn (checkPathClose t)" "posStart (checkPathClose t) = None"
    "flush_cmds (checkPathClose t) = []" "ctx (checkPathClose t) = ctx t @ [BeginPath]"
    using assms(1,2) by (simp_all add: flush_cmds_def checkPathClose_effect)
  note y = xyf_yields [of r rs "checkPathClose t"]
  have g: "g = xyf (yields (r # rs)) (checkPathClose t)"
    by (simp add: assms(3) xy_fun_def)
  show "issued t g =
      BeginPath # (if rs = [] then []
                   else MoveTo (fst r) (snd r) # map (\<lambda>p. LineTo (fst p) (snd p)) (butlast rs))"
    using y by (simp add: issued_def g reset)
  show "flush_cmds g =
      [if rs = [] then MoveTo (fst r) (snd r) else LineTo (fst (last rs)) (snd (last rs))]"
    using y by (simp add: g reset)
  show "\<not> pendingPathClose g" "pendingText g = []"
    using assms(1) by (simp_all add: g xyf_frame checkPathClose_effect)
  show "ctx g =
      ctx t @ BeginPath # (if rs = [] then []
                   else MoveTo (fst r) (snd r) # map (\<lambda>p. LineTo (fst p) (snd p)) (butlast rs))"
    using y by (simp add: g reset)
qed

text \<open>
  Claim C5 says that after a paint the next point-adding call issues \<open>beginPath\<close> once
  and that its point is then emitted as a move, not as a line from the position of before
  the paint. With a \<open>join()\<close> between the paint and the point, \<open>join\<close> takes the reset:
  after the point (1, 2), \<open>stroke()\<close> and \<open>join()\<close>, the call \<open>xy(3, 4)\<close> issues no
  \<open>beginPath\<close> but a move to (1, 2), and the next flush issues (3, 4) as a line from there.
\<close>

theorem join_before_point_counterexample:
  "issued (run [Call_xy (Some 1) (Some 2), Call_stroke SizeNone None, Call_join]
               (constructor (300, 150)))
          (run [Call_xy (Some 1) (Some 2), Call_stroke SizeNone None, Call_join,
                Call_xy (Some 3) (Some 4)] (constructor (300, 150)))
     = [MoveTo 1 2]
   \<and> issued (run [Call_xy (Some 1) (Some 2), Call_stroke SizeNone None, Call_join,
                   Call_xy (Some 3) (Some 4)] (constructor (300, 150)))
            (run [Call_xy (Some 1) (Some 2), Call_stroke SizeNone None, Call_join,
                  Call_xy (Some 3) (Some 4), Call_stroke SizeNone None] (constructor (300, 150)))
     = [LineTo 3 4, StrokeCmd]
   \<and> ctx (run [Call_xy (Some 1) (Some 2), Call_stroke SizeNone None, Call_join,
                Call_xy (Some 3) (Some 4), Call_stroke SizeNone None] (constructor (300, 150)))
     = [MoveTo 1 2, StrokeCmd, BeginPath, MoveTo 1 2, LineTo 3 4, StrokeCmd]"
  by (simp add: issued_def join_def stroke_def strokeTexts_def constructor_def path_defs)

text \<open>
  Claim C5, amended. After \<open>stroke\<close> or \<open>fill\<close> (whose last command is the paint itself),
  let only calls that touch neither the path nor the stored position come before the next
  point-adding call (\<open>arcTo\<close>, \<open>curve\<close>, \<open>dash\<close>, \<open>lineStyle\<close>, \<open>shadow\<close>, \<open>font\<close>,
  \<open>save\<close>, \<open>restore\<close>, \<open>rotate\<close>, \<open>scale\<close>, \<open>translate\<close>); they issue no \<open>beginPath\<close>.
  Then a point-adding call with a single point \<open>q\<close> (\<open>xy\<close> with two numbers, \<open>x\<close>, \<open>y\<close>,
  \<open>dxy\<close>, \<open>dx\<close>, \<open>dy\<close>) issues \<open>beginPath\<close> exactly once, as its first command, followed
  at most by the command of a curve that was pending, and the next flush, whichever call
  makes it, issues \<open>q\<close> as a move. \<open>xy\<close> with a generator that yields the points
  \<open>r # rs\<close> issues \<open>beginPath\<close> exactly once, first, then a move to \<open>r\<close> and lines to the
  further points, the last one at the next flush. In both cases exactly one \<open>beginPath\<close>
  lies between the paint and the emission of the point.
\<close>

theorem point_after_paint_opens_new_path:
  assumes "is_paint p" and "list_all off_path mid" and "t = run mid (exec p s)"
      and "point_of c t = Some q" and "u = exec c t"
      and "g = xy_fun (yields (r # rs)) t"
  shows "(last (ctx (exec p s)) = StrokeCmd \<or> (\<exists>rl. last (ctx (exec p s)) = FillCmd rl))
       \<and> pendingPathClose t
       \<and> BeginPath \<notin> set (issued (exec p s) t)
       \<and> issued t u =
             BeginPath # (case drawCurve t of None \<Rightarrow> [] | Some cv \<Rightarrow> [runCurve cv (fst q) (snd q)])
       \<and> length (filter (\<lambda>k. k = BeginPath) (issued t u)) = 1
       \<and> length (filter (\<lambda>k. k = BeginPath) (issued (exec p s) (advancePath a b u))) = 1
       \<and> issued t (advancePath a b u) =
             BeginPath # (case drawCurve t of None \<Rightarrow> [] | Some cv \<Rightarrow> [runCurve cv (fst q) (snd q)])
             @ [MoveTo (fst q) (snd q)]
       \<and> issued u (advancePath a b u) = [MoveTo (fst q) (snd q)]
       \<and> issued u (xy a b u) = [MoveTo (fst q) (snd q)]
       \<and> issued u (split u) = [MoveTo (fst q) (snd q)]
       \<and> issued u (join u) = [MoveTo (fst q) (snd q)]
       \<and> issued u (close u) = [MoveTo (fst q) (snd q), LineTo (fst q) (snd q), ClosePath]
       \<and> issued u (stroke sz col u) = stroke_style_cmds sz col @ [MoveTo (fst q) (snd q), StrokeCmd]
       \<and> issued u (fill fcol rule u) = fill_style_cmds fcol @ [MoveTo (fst q) (snd q), FillCmd rule]
       \<and> issued t g =
             BeginPath # (if rs = [] then []
                          else MoveTo (fst r) (snd r) # map (\<lambda>p. LineTo (fst p) (snd p)) (butlast rs))
       \<and> length (filter (\<lambda>k. k = BeginPath) (issued t g)) = 1
       \<and> length (filter (\<lambda>k. k = BeginPath) (issued (exec p s) (advancePath a b g))) = 1
       \<and> issued t (advancePath a b g) =
             BeginPath # MoveTo (fst r) (snd r) # map (\<lambda>p. LineTo (fst p) (snd p)) rs
       \<and> issued g (advancePath a b g) =
             [if rs = [] then MoveTo (fst r) (snd r) else LineTo (fst (last rs)) (snd (last rs))]
       \<and> issued g (split g) =
             [if rs = [] then MoveTo (fst r) (snd r) else LineTo (fst (last rs)) (snd (last rs))]
       \<and> issued g (stroke sz col g) =
             stroke_style_cmds sz col
             @ [if rs = [] then MoveTo (fst r) (snd r) else LineTo (fst (last rs)) (snd (last rs)),
                StrokeCmd]
       \<and> issued g (fill fcol rule g) =
             fill_style_cmds fcol
             @ [if rs = [] then MoveTo (fst r) (snd r) else LineTo (fst (last rs)) (snd (last rs)),
                FillCmd rule]"
proof -
  have painted: "pendingPathClose (exec p s)" "posDrawn (exec p s)"
    using assms(1) by (cases p; simp add: stroke_fields fill_fields)+
  from run_off_path [OF assms(2), of "exec p s"] obtain m
    where t: "pendingPathClose t" "posDrawn t"
      and m: "ctx t = ctx (exec p s) @ m" "BeginPath \<notin> set m"
    unfolding assms(3) using painted by auto
  have between: "BeginPath \<notin> set (issued (exec p s) t)"
    using m by (simp add: issued_def)
  have fm: "filter (\<lambda>k. k = BeginPath) m = []"
    using m(2) by (auto simp add: filter_empty_conv)
  have lastc: "last (ctx (exec p s)) = StrokeCmd \<or> (\<exists>rl. last (ctx (exec p s)) = FillCmd rl)"
    using assms(1) by (cases p) (simp_all add: stroke_ctx fill_ctx)
  have u: "u = xy (Some (fst q)) (Some (snd q)) t"
    unfolding assms(5) using assms(4) by (rule point_call)
  note pu = point_after_reset [OF t u]
  note fu = flush_by_calls [OF pu(3) pu(4)]
  have one_u: "length (filter (\<lambda>k. k = BeginPath) (issued t u)) = 1"
    unfolding pu(1) by (simp add: runCurve_not_path_start split: option.splits)
  have whole_u: "issued t (advancePath a b u) =
      BeginPath # (case drawCurve t of None \<Rightarrow> [] | Some cv \<Rightarrow> [runCurve cv (fst q) (snd q)])
      @ [MoveTo (fst q) (snd q)]"
    by (simp add: issued_def advancePath_ctx pu(2) pu(7))
  have span_u: "length (filter (\<lambda>k. k = BeginPath) (issued (exec p s) (advancePath a b u))) = 1"
    by (simp add: issued_def advancePath_ctx pu(2) pu(7) m(1) fm runCurve_not_path_start
        split: option.splits)
  note pg = generator_after_reset [OF t assms(6)]
  have whole_g: "issued t (advancePath a b g) =
      BeginPath # MoveTo (fst r) (snd r) # map (\<lambda>p. LineTo (fst p) (snd p)) rs"
    by (simp add: issued_def advancePath_ctx pg(2) pg(5) lines_snoc)
  have span_g: "length (filter (\<lambda>k. k = BeginPath) (issued (exec p s) (advancePath a b g))) = 1"
    by (simp add: issued_def advancePath_ctx pg(2) pg(5) m(1) fm lines_no_reset)
  have one_g: "length (filter (\<lambda>k. k = BeginPath) (issued t g)) = 1"
    unfolding pg(1) by (simp add: lines_no_reset)
  have flush_g: "issued g (advancePath a b g) =
      [if rs = [] then MoveTo (fst r) (snd r) else LineTo (fst (last rs)) (snd (last rs))]"
    "issued g (split g) =
      [if rs = [] then MoveTo (fst r) (snd r) else LineTo (fst (last rs)) (snd (last rs))]"
    using pg(3) by (simp_all add: issued_def advancePath_ctx split_ctx checkPathClose_idle pg(2))
  have paint_g: "issued g (stroke sz col g) =
      stroke_style_cmds sz col
      @ [if rs = [] then MoveTo (fst r) (snd r) else LineTo (fst (last rs)) (snd (last rs)),
         StrokeCmd]"
    "issued g (fill fcol rule g) =
      fill_style_cmds fcol
      @ [if rs = [] then MoveTo (fst r) (snd r) else LineTo (fst (last rs)) (snd (last rs)),
         FillCmd rule]"
    by (simp_all add: issued_def stroke_ctx fill_ctx pg(2) pg(4) strokeTexts_def fillTexts_def)
  have flush_u: "issued u (advancePath a b u) = [MoveTo (fst q) (snd q)]"
    "issued u (xy a b u) = [MoveTo (fst q) (snd q)]"
    "issued u (split u) = [MoveTo (fst q) (snd q)]"
    "issued u (join u) = [MoveTo (fst q) (snd q)]"
    "issued u (close u) = [MoveTo (fst q) (snd q), LineTo (fst q) (snd q), ClosePath]"
    "issued u (stroke sz col u) = stroke_style_cmds sz col @ [MoveTo (fst q) (snd q), StrokeCmd]"
    "issued u (fill fcol rule u) = fill_style_cmds fcol @ [MoveTo (fst q) (snd q), FillCmd rule]"
    by (simp_all add: fu pu strokeTexts_def fillTexts_def)
  show ?thesis
    by (intro conjI lastc t(1) between pu(1) one_u span_u whole_u flush_u pg(1) one_g span_g whole_g
        flush_g paint_g)
qed

text \<open>
  Point (1, 2), \<open>stroke()\<close>, \<open>save()\<close>, and then \<open>dxy(2, 2)\<close> followed by a point, or a
  generator that yields (3, 4) and (5, 6).
\<close>

theorem point_after_paint_opens_new_path_witness:
  "issued (run [Call_save] (stroke SizeNone None (xy (Some 1) (Some 2) (constructor (300, 150)))))
          (dxy 2 2 (run [Call_save] (stroke SizeNone None (xy (Some 1) (Some 2) (constructor (300, 150))))))
     = [BeginPath]
   \<and> issued (dxy 2 2 (run [Call_save] (stroke SizeNone None (xy (Some 1) (Some 2) (constructor (300, 150))))))
            (xy (Some 5) (Some 6)
               (dxy 2 2 (run [Call_save] (stroke SizeNone None (xy (Some 1) (Some 2) (constructor (300, 150)))))))
     = [MoveTo 3 4]
   \<and> issued (run [Call_save] (stroke SizeNone None (xy (Some 1) (Some 2) (constructor (300, 150)))))
            (xy_fun (yields [(3, 4), (5, 6)])
               (run [Call_save] (stroke SizeNone None (xy (Some 1) (Some 2) (constructor (300, 150))))))
     = [BeginPath, MoveTo 3 4]
   \<and> ctx (run [Call_xy (Some 1) (Some 2), Call_stroke SizeNone None, Call_save, Call_dxy 2 2,
                 Call_xy (Some 5) (Some 6)] (constructor (300, 150)))
     = [MoveTo 1 2, StrokeCmd, SaveCmd, BeginPath, MoveTo 3 4]"
proof -
  have paint: "is_paint (Call_stroke SizeNone None)" and mid: "list_all off_path [Call_save]"
    by simp_all
  have pt: "point_of (Call_dxy 2 2)
      (run [Call_save] (exec (Call_stroke SizeNone None) (xy (Some 1) (Some 2) (constructor (300, 150)))))
      = Some (3, 4)"
    by (simp add: save_def stroke_def strokeTexts_def constructor_def path_defs)
  show ?thesis
    using point_after_paint_opens_new_path [OF paint mid refl pt refl refl,
        where a = "Some 5" and b = "Some 6" and r = "(3, 4)" and rs = "[(5, 6)]"]
    by (simp add: dxy_def save_def stroke_def strokeTexts_def constructor_def path_defs)
qed

subsection \<open>Split and join\<close>

lemma split_state:
  "\<not> pendingPathClose (split s)" "posDrawn (split s)" "posStart (split s) = None"
  "drawCurve (split s) = drawCurve s" "flush_cmds (split s) = []"
  by (simp_all add: split_def flush_cmds_def advancePath_frame advancePath_posDrawn
      checkPathClose_effect)

lemma point_after_split:
  assumes "u = xy (Some (fst q)) (Some (snd q)) (split s)"
  shows "ctx u =
           ctx (split s) @ (case drawCurve s of None \<Rightarrow> [] | Some cv \<Rightarrow> [runCurve cv (fst q) (snd q)])"
    and "flush_cmds u = [MoveTo (fst q) (snd q)]"
    and "\<not> pendingPathClose u" and "drawCurve u = None"
    and "posStart (advancePath None None u) = Some q"
  unfolding assms using split_state [of s]
  by (simp_all add: xy_ctx xy_fields flush_cmds_def checkPathClose_idle advancePath_pos
      advancePath_posStart advancePath_posDrawn split: option.splits)

lemma generator_after_split:
  assumes "g = xy_fun (yields (r # rs)) (split s)"
  shows "ctx g =
           ctx (split s)
           @ (if rs = [] then []
              else MoveTo (fst r) (snd r) # map (\<lambda>p. LineTo (fst p) (snd p)) (butlast rs))"
    and "flush_cmds g =
           [if rs = [] then MoveTo (fst r) (snd r) else LineTo (fst (last rs)) (snd (last rs))]"
    and "\<not> pendingPathClose g"
proof -
  have g: "g = xyf (yields (r # rs)) (split s)"
    by (simp add: assms xy_fun_def checkPathClose_idle split_state)
  note y = xyf_yields [of r rs "split s"]
  show "ctx g =
      ctx (split s)
      @ (if rs = [] then []
         else MoveTo (fst r) (snd r) # map (\<lambda>p. LineTo (fst p) (snd p)) (butlast rs))"
    using y by (simp add: g split_state)
  show "flush_cmds g =
      [if rs = [] then MoveTo (fst r) (snd r) else LineTo (fst (last rs)) (snd (last rs))]"
    using y by (simp add: g split_state)
  show "\<not> pendingPathClose g"
    by (simp add: g xyf_frame split_state)
qed

lemma join_state:
  "\<not> pendingPathClose (join s)" "posDrawn (join s) = False" "drawCurve (join s) = None"
  "pos (join s) = pos s"
  "flush_cmds (join s) =
     [if posDrawn s \<and> (pendingPathClose s \<or> posStart s = None)
      then MoveTo (fst (pos s)) (snd (pos s)) else LineTo (fst (pos s)) (snd (pos s))]"
  by (simp_all add: join_fields flush_cmds_def advancePath_posStart checkPathClose_effect)

lemma point_after_join:
  assumes "ju = xy (Some (fst q)) (Some (snd q)) (join s)"
  shows "ctx ju = ctx (join s) @ flush_cmds (join s)"
    and "flush_cmds ju = [LineTo (fst q) (snd q)]"
    and "\<not> pendingPathClose ju" and "drawCurve ju = None"
    and "\<exists>st. posStart (advancePath None None ju) = Some st"
  unfolding assms using join_state(1-4) [of s]
  by (simp_all add: xy_ctx xy_fields flush_cmds_def checkPathClose_idle advancePath_pos
      advancePath_posStart advancePath_posDrawn)

lemma generator_after_join:
  assumes "jg = xy_fun (yields (r # rs)) (join s)"
  shows "ctx jg =
           ctx (join s) @ flush_cmds (join s)
           @ (if rs = [] then []
              else LineTo (fst r) (snd r) # map (\<lambda>p. LineTo (fst p) (snd p)) (butlast rs))"
    and "flush_cmds jg = [LineTo (fst (last (r # rs))) (snd (last (r # rs)))]"
    and "\<not> pendingPathClose jg"
proof -
  have g: "jg = xyf (yields (r # rs)) (join s)"
    by (simp add: assms xy_fun_def checkPathClose_idle join_state)
  note y = xyf_yields [of r rs "join s"]
  show "ctx jg =
      ctx (join s) @ flush_cmds (join s)
      @ (if rs = [] then []
         else LineTo (fst r) (snd r) # map (\<lambda>p. LineTo (fst p) (snd p)) (butlast rs))"
    using y by (simp add: g join_state(2))
  show "flush_cmds jg = [LineTo (fst (last (r # rs))) (snd (last (r # rs)))]"
    using y by (simp add: g join_state(2))
  show "\<not> pendingPathClose jg"
    by (simp add: g xyf_frame join_state)
qed

text \<open>
  Claim C7 says that after \<open>split()\<close> the new point opens a disconnected subpath. A curve
  that is pending at the split is carried across it: after the points (0, 0) and (1, 1),
  \<open>curve(5, 5)\<close> and \<open>split()\<close>, the call \<open>xy(2, 2)\<close> issues the curve from the position
  of before the split to (2, 2), and only then is (2, 2) moved to.
\<close>

theorem curve_across_split_counterexample:
  "issued (run [Call_xy (Some 0) (Some 0), Call_xy (Some 1) (Some 1), Call_curve 5 5 None None,
                Call_split] (constructor (300, 150)))
          (run [Call_xy (Some 0) (Some 0), Call_xy (Some 1) (Some 1), Call_curve 5 5 None None,
                Call_split, Call_xy (Some 2) (Some 2)] (constructor (300, 150)))
     = [QuadraticCurveTo 5 5 2 2]
   \<and> ctx (run [Call_xy (Some 0) (Some 0), Call_xy (Some 1) (Some 1), Call_curve 5 5 None None,
                Call_split, Call_xy (Some 2) (Some 2), Call_stroke SizeNone None]
               (constructor (300, 150)))
     = [MoveTo 0 0, LineTo 1 1, QuadraticCurveTo 5 5 2 2, MoveTo 2 2, StrokeCmd]"
  by (simp add: issued_def curve_def split_def stroke_def strokeTexts_def constructor_def path_defs)

text \<open>
  Claim C7, amended. After \<open>split()\<close>, a point-adding call never causes a line to its
  (first) point: that point is emitted as a move, by the next flush for a call with a
  single point \<open>q\<close> (\<open>xy\<close> with two numbers, \<open>x\<close>, \<open>y\<close>, \<open>dxy\<close>, \<open>dx\<close>, \<open>dy\<close>) and
  by the call itself for a generator that yields further points. Before the move, a call
  with a single point issues the command of a curve that was pending at the split, which
  joins the position of before the split to \<open>q\<close>, and nothing when no curve was pending;
  the generator form issues nothing before it. After \<open>join()\<close>, a point-adding call
  first puts the position of before the join on the path, by a line to it, or by a move
  when no subpath is open, and its (first) point is emitted as a line, by the next flush
  or by the generator form itself: a line that starts at the position of before the join,
  whatever the point is.
\<close>

theorem split_then_point_moves_join_then_point_lines:
  assumes "point_of c (split s) = Some q" and "u = exec c (split s)"
      and "g = xy_fun (yields (r # rs)) (split s)"
      and "point_of c' (join s) = Some q'" and "ju = exec c' (join s)"
      and "jg = xy_fun (yields (r' # rs')) (join s)"
      and "fp = (if posDrawn s \<and> (pendingPathClose s \<or> posStart s = None)
                 then MoveTo (fst (pos s)) (snd (pos s)) else LineTo (fst (pos s)) (snd (pos s)))"
  shows "issued (split s) u =
             (case drawCurve s of None \<Rightarrow> [] | Some cv \<Rightarrow> [runCurve cv (fst q) (snd q)])
       \<and> issued (split s) (advancePath a b u) =
             (case drawCurve s of None \<Rightarrow> [] | Some cv \<Rightarrow> [runCurve cv (fst q) (snd q)])
             @ [MoveTo (fst q) (snd q)]
       \<and> issued u (advancePath a b u) = [MoveTo (fst q) (snd q)]
       \<and> issued u (xy a b u) = [MoveTo (fst q) (snd q)]
       \<and> issued u (split u) = [MoveTo (fst q) (snd q)]
       \<and> issued u (join u) = [MoveTo (fst q) (snd q)]
       \<and> issued u (close u) = [MoveTo (fst q) (snd q), LineTo (fst q) (snd q), ClosePath]
       \<and> issued u (stroke sz col u) =
             stroke_style_cmds sz col @ [MoveTo (fst q) (snd q)] @ strokeTexts (pendingText u)
             @ [StrokeCmd]
       \<and> issued u (fill fcol rule u) =
             fill_style_cmds fcol @ [MoveTo (fst q) (snd q)] @ fillTexts (pendingText u)
             @ [FillCmd rule]
       \<and> issued (split s) g =
             (if rs = [] then []
              else MoveTo (fst r) (snd r) # map (\<lambda>p. LineTo (fst p) (snd p)) (butlast rs))
       \<and> issued (split s) (advancePath a b g) =
             MoveTo (fst r) (snd r) # map (\<lambda>p. LineTo (fst p) (snd p)) rs
       \<and> issued g (advancePath a b g) =
             [if rs = [] then MoveTo (fst r) (snd r) else LineTo (fst (last rs)) (snd (last rs))]
       \<and> issued g (split g) =
             [if rs = [] then MoveTo (fst r) (snd r) else LineTo (fst (last rs)) (snd (last rs))]
       \<and> issued g (stroke sz col g) =
             stroke_style_cmds sz col
             @ [if rs = [] then MoveTo (fst r) (snd r) else LineTo (fst (last rs)) (snd (last rs))]
             @ strokeTexts (pendingText g) @ [StrokeCmd]
       \<and> issued g (fill fcol rule g) =
             fill_style_cmds fcol
             @ [if rs = [] then MoveTo (fst r) (snd r) else LineTo (fst (last rs)) (snd (last rs))]
             @ fillTexts (pendingText g) @ [FillCmd rule]
       \<and> issued (join s) ju = [fp]
       \<and> issued (join s) (advancePath a b ju) = [fp, LineTo (fst q') (snd q')]
       \<and> issued ju (advancePath a b ju) = [LineTo (fst q') (snd q')]
       \<and> issued ju (xy a b ju) = [LineTo (fst q') (snd q')]
       \<and> issued ju (split ju) = [LineTo (fst q') (snd q')]
       \<and> issued ju (join ju) = [LineTo (fst q') (snd q')]
       \<and> (\<exists>st. issued ju (close ju) =
                   [LineTo (fst q') (snd q'), LineTo (fst st) (snd st), ClosePath])
       \<and> issued ju (stroke sz col ju) =
             stroke_style_cmds sz col @ [LineTo (fst q') (snd q')] @ strokeTexts (pendingText ju)
             @ [StrokeCmd]
       \<and> issued ju (fill fcol rule ju) =
             fill_style_cmds fcol @ [LineTo (fst q') (snd q')] @ fillTexts (pendingText ju)
             @ [FillCmd rule]
       \<and> issued (join s) jg =
             fp # (if rs' = [] then []
                   else LineTo (fst r') (snd r') # map (\<lambda>p. LineTo (fst p) (snd p)) (butlast rs'))
       \<and> issued (join s) (advancePath a b jg) =
             fp # LineTo (fst r') (snd r') # map (\<lambda>p. LineTo (fst p) (snd p)) rs'
       \<and> issued jg (advancePath a b jg) = [LineTo (fst (last (r' # rs'))) (snd (last (r' # rs')))]
       \<and> issued jg (split jg) = [LineTo (fst (last (r' # rs'))) (snd (last (r' # rs')))]
       \<and> issued jg (stroke sz col jg) =
             stroke_style_cmds sz col @ [LineTo (fst (last (r' # rs'))) (snd (last (r' # rs')))]
             @ strokeTexts (pendingText jg) @ [StrokeCmd]
       \<and> issued jg (fill fcol rule jg) =
             fill_style_cmds fcol @ [LineTo (fst (last (r' # rs'))) (snd (last (r' # rs')))]
             @ fillTexts (pendingText jg) @ [FillCmd rule]"
proof -
  have u: "u = xy (Some (fst q)) (Some (snd q)) (split s)"
    unfolding assms(2) using assms(1) by (rule point_call)
  note pu = point_after_split [OF u]
  note fu = flush_by_calls [OF pu(3) pu(4)]
  have su: "issued (split s) u =
      (case drawCurve s of None \<Rightarrow> [] | Some cv \<Rightarrow> [runCurve cv (fst q) (snd q)])"
    "issued (split s) (advancePath a b u) =
      (case drawCurve s of None \<Rightarrow> [] | Some cv \<Rightarrow> [runCurve cv (fst q) (snd q)])
      @ [MoveTo (fst q) (snd q)]"
    by (simp_all add: issued_def advancePath_ctx pu(1) pu(2))
  have tu: "issued u (advancePath a b u) = [MoveTo (fst q) (snd q)]"
    "issued u (xy a b u) = [MoveTo (fst q) (snd q)]"
    "issued u (split u) = [MoveTo (fst q) (snd q)]"
    "issued u (join u) = [MoveTo (fst q) (snd q)]"
    "issued u (close u) = [MoveTo (fst q) (snd q), LineTo (fst q) (snd q), ClosePath]"
    "issued u (stroke sz col u) =
      stroke_style_cmds sz col @ [MoveTo (fst q) (snd q)] @ strokeTexts (pendingText u)
      @ [StrokeCmd]"
    "issued u (fill fcol rule u) =
      fill_style_cmds fcol @ [MoveTo (fst q) (snd q)] @ fillTexts (pendingText u)
      @ [FillCmd rule]"
    by (simp_all add: fu pu(2) pu(5))
  note pg = generator_after_split [OF assms(3)]
  have sg: "issued (split s) g =
      (if rs = [] then []
       else MoveTo (fst r) (snd r) # map (\<lambda>p. LineTo (fst p) (snd p)) (butlast rs))"
    "issued (split s) (advancePath a b g) =
      MoveTo (fst r) (snd r) # map (\<lambda>p. LineTo (fst p) (snd p)) rs"
    by (simp_all add: issued_def advancePath_ctx pg(1) pg(2) lines_snoc)
  have tg: "issued g (advancePath a b g) =
      [if rs = [] then MoveTo (fst r) (snd r) else LineTo (fst (last rs)) (snd (last rs))]"
    "issued g (split g) =
      [if rs = [] then MoveTo (fst r) (snd r) else LineTo (fst (last rs)) (snd (last rs))]"
    "issued g (stroke sz col g) =
      stroke_style_cmds sz col
      @ [if rs = [] then MoveTo (fst r) (snd r) else LineTo (fst (last rs)) (snd (last rs))]
      @ strokeTexts (pendingText g) @ [StrokeCmd]"
    "issued g (fill fcol rule g) =
      fill_style_cmds fcol
      @ [if rs = [] then MoveTo (fst r) (snd r) else LineTo (fst (last rs)) (snd (last rs))]
      @ fillTexts (pendingText g) @ [FillCmd rule]"
    using pg(3)
    by (simp_all add: issued_def advancePath_ctx split_ctx stroke_ctx fill_ctx checkPathClose_idle
        pg(2))
  have ju: "ju = xy (Some (fst q')) (Some (snd q')) (join s)"
    unfolding assms(5) using assms(4) by (rule point_call)
  note pj = point_after_join [OF ju]
  note fj = flush_by_calls [OF pj(3) pj(4)]
  have fp: "flush_cmds (join s) = [fp]"
    by (simp add: join_state(5) assms(7))
  have sj: "issued (join s) ju = [fp]"
    "issued (join s) (advancePath a b ju) = [fp, LineTo (fst q') (snd q')]"
    by (simp_all add: issued_def advancePath_ctx pj(1) pj(2) fp)
  from pj(5) obtain st where st: "posStart (advancePath None None ju) = Some st" ..
  have cj: "\<exists>st. issued ju (close ju) =
      [LineTo (fst q') (snd q'), LineTo (fst st) (snd st), ClosePath]"
    by (rule exI [of _ st]) (simp add: fj(5) pj(2) st)
  have tj: "issued ju (advancePath a b ju) = [LineTo (fst q') (snd q')]"
    "issued ju (xy a b ju) = [LineTo (fst q') (snd q')]"
    "issued ju (split ju) = [LineTo (fst q') (snd q')]"
    "issued ju (join ju) = [LineTo (fst q') (snd q')]"
    "issued ju (stroke sz col ju) =
      stroke_style_cmds sz col @ [LineTo (fst q') (snd q')] @ strokeTexts (pendingText ju)
      @ [StrokeCmd]"
    "issued ju (fill fcol rule ju) =
      fill_style_cmds fcol @ [LineTo (fst q') (snd q')] @ fillTexts (pendingText ju)
      @ [FillCmd rule]"
    by (simp_all add: fj(1-4,6-7) pj(2))
  note pjg = generator_after_join [OF assms(6)]
  have sjg: "issued (join s) jg =
      fp # (if rs' = [] then []
            else LineTo (fst r') (snd r') # map (\<lambda>p. LineTo (fst p) (snd p)) (butlast rs'))"
    "issued (join s) (advancePath a b jg) =
      fp # LineTo (fst r') (snd r') # map (\<lambda>p. LineTo (fst p) (snd p)) rs'"
    by (simp_all add: issued_def advancePath_ctx pjg(1) pjg(2) fp lines_snoc)
  have tjg: "issued jg (advancePath a b jg) = [LineTo (fst (last (r' # rs'))) (snd (last (r' # rs')))]"
    "issued jg (split jg) = [LineTo (fst (last (r' # rs'))) (snd (last (r' # rs')))]"
    "issued jg (stroke sz col jg) =
      stroke_style_cmds sz col @ [LineTo (fst (last (r' # rs'))) (snd (last (r' # rs')))]
      @ strokeTexts (pendingText jg) @ [StrokeCmd]"
    "issued jg (fill fcol rule jg) =
      fill_style_cmds fcol @ [LineTo (fst (last (r' # rs'))) (snd (last (r' # rs')))]
      @ fillTexts (pendingText jg) @ [FillCmd rule]"
    using pjg(3)
    by (simp_all add: issued_def advancePath_ctx split_ctx stroke_ctx fill_ctx checkPathClose_idle
        pjg(2) del: last.simps)
  show ?thesis
    by (intro conjI su tu sg tg sj tj(1-4) cj tj(5-6) sjg tjg)
qed

text \<open>
  After the points (0, 0) and (1, 1) and a rectangle, which commits (1, 1) without
  drawing to it: \<open>split()\<close> and the point (1, 1) give a move; \<open>join()\<close> and \<open>dxy(0, 0)\<close>,
  the same point again, give a line to (1, 1) and a second line from there, where
  \<open>dxy(0, 0)\<close> alone gives one line.
\<close>

theorem split_then_point_moves_join_then_point_lines_witness:
  "issued (split (rect 5 5 False (run (points [(0, 0), (1, 1)]) (constructor (300, 150)))))
          (xy (Some 1) (Some 1)
             (split (rect 5 5 False (run (points [(0, 0), (1, 1)]) (constructor (300, 150))))))
     = []
   \<and> issued (xy (Some 1) (Some 1)
               (split (rect 5 5 False (run (points [(0, 0), (1, 1)]) (constructor (300, 150))))))
            (stroke SizeNone None
               (xy (Some 1) (Some 1)
                  (split (rect 5 5 False (run (points [(0, 0), (1, 1)]) (constructor (300, 150)))))))
     = [MoveTo 1 1, StrokeCmd]
   \<and> issued (join (rect 5 5 False (run (points [(0, 0), (1, 1)]) (constructor (300, 150)))))
            (dxy 0 0 (join (rect 5 5 False (run (points [(0, 0), (1, 1)]) (constructor (300, 150))))))
     = [LineTo 1 1]
   \<and> issued (dxy 0 0 (join (rect 5 5 False (run (points [(0, 0), (1, 1)]) (constructor (300, 150))))))
            (stroke SizeNone None
               (dxy 0 0 (join (rect 5 5 False (run (points [(0, 0), (1, 1)]) (constructor (300, 150)))))))
     = [LineTo 1 1, StrokeCmd]
   \<and> ctx (run (points [(0, 0), (1, 1)] @ [Call_rect 5 5 False, Call_dxy 0 0,
                Call_stroke SizeNone None]) (constructor (300, 150)))
     = [MoveTo 0 0, RectCmd 1 1 5 5, LineTo 1 1, StrokeCmd]
   \<and> ctx (run (points [(0, 0), (1, 1)] @ [Call_rect 5 5 False, Call_join, Call_dxy 0 0,
                Call_stroke SizeNone None]) (constructor (300, 150)))
     = [MoveTo 0 0, RectCmd 1 1 5 5, LineTo 1 1, LineTo 1 1, StrokeCmd]"
proof -
  let ?s = "rect 5 5 False (run (points [(0, 0), (1, 1)]) (constructor (300, 150)))"
  have s: "posDrawn ?s" "posStart ?s = Some (0, 0)" "pos ?s = (1, 1)" "\<not> pendingPathClose ?s"
    "drawCurve ?s = None" "pendingText ?s = []"
    by (simp_all add: points_def rect_def constructor_def path_defs)
  have after_split: "point_of (Call_xy (Some 1) (Some 1)) (split ?s) = Some (1, 1)"
    by simp
  have after_join: "point_of (Call_dxy 0 0) (join ?s) = Some (1, 1)"
    by (simp add: join_state(4) s(3))
  note th = split_then_point_moves_join_then_point_lines [OF after_split refl refl after_join refl
      refl refl, where r = "(1, 1)" and rs = "[]" and r' = "(1, 1)" and rs' = "[]"
      and sz = SizeNone and col = None]
  have w1: "issued (split ?s) (xy (Some 1) (Some 1) (split ?s)) = []"
    using th [THEN conjunct1] by (simp add: s(5))
  have w2: "issued (xy (Some 1) (Some 1) (split ?s))
      (stroke SizeNone None (xy (Some 1) (Some 1) (split ?s))) = [MoveTo 1 1, StrokeCmd]"
    using th [THEN conjunct2, THEN conjunct2, THEN conjunct2, THEN conjunct2, THEN conjunct2, THEN conjunct2, THEN conjunct2, THEN conjunct1]
    by (simp add: xy_fields split_fields s(4,6) strokeTexts_def)
  have w3: "issued (join ?s) (dxy 0 0 (join ?s)) = [LineTo 1 1]"
    using th [THEN conjunct2, THEN conjunct2, THEN conjunct2, THEN conjunct2, THEN conjunct2, THEN conjunct2, THEN conjunct2, THEN conjunct2, THEN conjunct2, THEN conjunct2, THEN conjunct2, THEN conjunct2, THEN conjunct2, THEN conjunct2, THEN conjunct2, THEN conjunct1]
    by (simp add: s)
  have w4: "issued (dxy 0 0 (join ?s)) (stroke SizeNone None (dxy 0 0 (join ?s)))
      = [LineTo 1 1, StrokeCmd]"
    using th [THEN conjunct2, THEN conjunct2, THEN conjunct2, THEN conjunct2, THEN conjunct2, THEN conjunct2, THEN conjunct2, THEN conjunct2, THEN conjunct2, THEN conjunct2, THEN conjunct2, THEN conjunct2, THEN conjunct2, THEN conjunct2, THEN conjunct2, THEN conjunct2, THEN conjunct2, THEN conjunct2, THEN conjunct2, THEN conjunct2, THEN conjunct2, THEN conjunct2, THEN conjunct1]
    by (simp add: dxy_def xy_fields join_fields s(4,6) strokeTexts_def)
  have plain: "ctx (run (points [(0, 0), (1, 1)] @ [Call_rect 5 5 False, Call_dxy 0 0,
      Call_stroke SizeNone None]) (constructor (300, 150)))
      = [MoveTo 0 0, RectCmd 1 1 5 5, LineTo 1 1, StrokeCmd]"
    by (simp add: points_def rect_def dxy_def stroke_def strokeTexts_def constructor_def path_defs)
  have joined: "ctx (run (points [(0, 0), (1, 1)] @ [Call_rect 5 5 False, Call_join, Call_dxy 0 0,
      Call_stroke SizeNone None]) (constructor (300, 150)))
      = [MoveTo 0 0, RectCmd 1 1 5 5, LineTo 1 1, LineTo 1 1, StrokeCmd]"
    by (simp add: points_def rect_def join_def dxy_def stroke_def strokeTexts_def constructor_def
        path_defs)
  show ?thesis
    by (intro conjI w1 w2 w3 w4 plain joined)
qed

end
